theory Spec2Isabelle
  imports Complex_Main "HOL-Library.AList" "HOL-Library.Sublist"
begin

section \<open>Python data\<close>

text \<open>
  Conventions of the embedding.
  \<^item> A Python \<open>dict\<close> is an association list in insertion order; \<open>d[k] = v\<close> is
    \<open>AList.update k v d\<close> (replace in place, else append), \<open>d.get(k)\<close> is \<open>map_of d k\<close>,
    \<open>del d[k]\<close> is \<open>AList.delete k d\<close>, \<open>d.values()\<close> is \<open>map snd d\<close>.
  \<^item> Objects that are shared and mutated through several references (the \<open>Connection\<close>
    objects of the registry) live in an explicit store addressed by natural numbers.
  \<^item> Python floats are idealised as real numbers; wall-clock readings (\<open>time.time()\<close>) that
    only stamp log entries are left out. \<open>time.sleep\<close> with a constant duration has no
    effect on the state; the one call whose duration is data (the latency of a connection)
    may raise, and does so in the model.
  \<^item> An exception is a value of type \<open>error\<close>; what \<open>logger.error\<close> writes is returned as
    a list of such values.
  \<^item> A method \<open>_name\<close> of the source is called \<open>name\<close> here (an identifier cannot start
    with an underscore).
  \<^item> Background threads are modelled as functions of their own (\<open>message_processor\<close>,
    \<open>node_message_delivery\<close>) whose iterations can be interleaved with calls; every
    method and every iteration runs atomically.
\<close>

datatype pyval = PNone | PStr string | PInt int | PList "string list"

datatype error = ValueError string | AttributeError string | OverflowError string

type_synonym message = "(string \<times> pyval) list"

text \<open>\<open>queue.Queue(maxsize)\<close>: \<open>maxsize = 0\<close> means unbounded; \<open>put_nowait\<close> raises
  \<open>queue.Full\<close> (here: \<open>None\<close>) when \<open>0 < maxsize <= qsize\<close>.\<close>

record 'a py_queue =
  maxsize :: nat
  items :: "'a list"

definition Queue :: "nat \<Rightarrow> 'a py_queue" where
  "Queue n = \<lparr>maxsize = n, items = []\<rparr>"

definition full :: "'a py_queue \<Rightarrow> bool" where
  "full q = (0 < maxsize q \<and> maxsize q \<le> length (items q))"

definition put_nowait :: "'a \<Rightarrow> 'a py_queue \<Rightarrow> 'a py_queue option" where
  "put_nowait x q = (if full q then None else Some (q\<lparr>items := items q @ [x]\<rparr>))"

section \<open>The connection registry (ipc_manager.py)\<close>

record Connection =
  node1 :: string
  node2 :: string
  interface1 :: string
  interface2 :: string
  enabled :: bool
  bandwidth :: "string option"
  latency :: real
  packet_loss :: real

record ipc_message =
  source :: string
  target :: string
  message :: message
  connection :: nat

record message_stats =
  sent :: int
  delivered :: int
  dropped :: int
  queued :: int

text \<open>\<open>connections\<close> maps an ordered pair of node names to the address of a
  \<open>Connection\<close> object; \<open>conn_objects\<close> is the store of those objects and \<open>next_ref\<close> the
  next unused address.\<close>

record IPCManager =
  timeout :: real
  connections :: "((string \<times> string) \<times> nat) list"
  conn_objects :: "nat \<Rightarrow> Connection option"
  next_ref :: nat
  node_queues :: "(string \<times> message py_queue) list"
  message_stats :: message_stats
  running :: bool
  message_queue :: "ipc_message py_queue"

text \<open>Keyword arguments of \<open>create_connection\<close> and \<open>set_connection_properties\<close>:
  \<open>None\<close> is an absent keyword.\<close>

record conn_kwargs =
  kw_bandwidth :: "string option"
  kw_latency :: "real option"
  kw_packet_loss :: "real option"

record conn_properties =
  p_latency :: "real option"
  p_packet_loss :: "real option"
  p_bandwidth :: "string option option"

definition IPCManager_init :: "real option \<Rightarrow> IPCManager" where
  "IPCManager_init ipc_timeout =
     \<lparr>timeout = (case ipc_timeout of None \<Rightarrow> 5000 | Some t \<Rightarrow> t) / 1000,
      connections = [],
      conn_objects = Map.empty,
      next_ref = 0,
      node_queues = [],
      message_stats = \<lparr>sent = 0, delivered = 0, dropped = 0, queued = 0\<rparr>,
      running = True,
      message_queue = Queue 0\<rparr>"

definition ensure_node_queue :: "string \<Rightarrow> IPCManager \<Rightarrow> IPCManager" where
  "ensure_node_queue node_name s =
     (if map_of (node_queues s) node_name = None
      then s\<lparr>node_queues := AList.update node_name (Queue 100) (node_queues s)\<rparr>
      else s)"

definition create_connection ::
  "string \<Rightarrow> string \<Rightarrow> string \<Rightarrow> string \<Rightarrow> conn_kwargs \<Rightarrow> IPCManager \<Rightarrow> IPCManager" where
  "create_connection n1 n2 i1 i2 kwargs s =
     (let conn_key1 = (n1, n2);
          conn_key2 = (n2, n1);
          c = \<lparr>node1 = n1, node2 = n2, interface1 = i1, interface2 = i2,
               enabled = True,
               bandwidth = kw_bandwidth kwargs,
               latency = (case kw_latency kwargs of None \<Rightarrow> 0.001 | Some l \<Rightarrow> l),
               packet_loss = (case kw_packet_loss kwargs of None \<Rightarrow> 0.0 | Some p \<Rightarrow> p)\<rparr>;
          r = next_ref s;
          s0 = s\<lparr>conn_objects := (conn_objects s)(r \<mapsto> c), next_ref := Suc r\<rparr>;
          s1 = s0\<lparr>connections := AList.update conn_key1 r (connections s0)\<rparr>;
          s2 = s1\<lparr>connections := AList.update conn_key2 r (connections s1)\<rparr>
      in ensure_node_queue n2 (ensure_node_queue n1 s2))"

text \<open>\<open>self.connections.get(key)\<close>: the object behind the entry, if any.\<close>

definition get_connection_info :: "string \<Rightarrow> string \<Rightarrow> IPCManager \<Rightarrow> Connection option" where
  "get_connection_info n1 n2 s =
     (case map_of (connections s) (n1, n2) of None \<Rightarrow> None | Some r \<Rightarrow> conn_objects s r)"

text \<open>An assignment to fields of the object at address \<open>r\<close>.\<close>

definition modify_connection :: "(Connection \<Rightarrow> Connection) \<Rightarrow> nat \<Rightarrow> IPCManager \<Rightarrow> IPCManager" where
  "modify_connection f r s =
     (case conn_objects s r of
        None \<Rightarrow> s
      | Some c \<Rightarrow> s\<lparr>conn_objects := (conn_objects s)(r \<mapsto> f c)\<rparr>)"

definition modify_at :: "(Connection \<Rightarrow> Connection) \<Rightarrow> string \<times> string \<Rightarrow> IPCManager \<Rightarrow> IPCManager" where
  "modify_at f conn_key s =
     (case map_of (connections s) conn_key of
        None \<Rightarrow> s
      | Some r \<Rightarrow> modify_connection f r s)"

definition disable_connection :: "string \<Rightarrow> string \<Rightarrow> IPCManager \<Rightarrow> IPCManager" where
  "disable_connection n1 n2 s =
     modify_at (\<lambda>c. c\<lparr>enabled := False\<rparr>) (n2, n1)
       (modify_at (\<lambda>c. c\<lparr>enabled := False\<rparr>) (n1, n2) s)"

definition enable_connection :: "string \<Rightarrow> string \<Rightarrow> IPCManager \<Rightarrow> IPCManager" where
  "enable_connection n1 n2 s =
     modify_at (\<lambda>c. c\<lparr>enabled := True\<rparr>) (n2, n1)
       (modify_at (\<lambda>c. c\<lparr>enabled := True\<rparr>) (n1, n2) s)"

definition enable_all_connections :: "IPCManager \<Rightarrow> IPCManager" where
  "enable_all_connections s =
     fold (modify_connection (\<lambda>c. c\<lparr>enabled := True\<rparr>)) (map snd (connections s)) s"

definition apply_properties :: "conn_properties \<Rightarrow> Connection \<Rightarrow> Connection" where
  "apply_properties props c =
     (let c1 = (case p_latency props of None \<Rightarrow> c | Some l \<Rightarrow> c\<lparr>latency := l\<rparr>);
          c2 = (case p_packet_loss props of None \<Rightarrow> c1 | Some p \<Rightarrow> c1\<lparr>packet_loss := p\<rparr>);
          c3 = (case p_bandwidth props of None \<Rightarrow> c2 | Some b \<Rightarrow> c2\<lparr>bandwidth := b\<rparr>)
      in c3)"

definition set_connection_properties ::
  "string \<Rightarrow> string \<Rightarrow> conn_properties \<Rightarrow> IPCManager \<Rightarrow> IPCManager" where
  "set_connection_properties n1 n2 props s =
     fold (modify_at (apply_properties props)) [(n1, n2), (n2, n1)] s"

definition simulate_congestion :: "string \<Rightarrow> string \<Rightarrow> real \<Rightarrow> IPCManager \<Rightarrow> IPCManager" where
  "simulate_congestion n1 n2 congestion_level s =
     (let base_latency = 0.001;
          base_packet_loss = 0.0;
          new_latency = base_latency * (1 + congestion_level * 10);
          new_packet_loss = base_packet_loss + (congestion_level * 0.1)
      in set_connection_properties n1 n2
           \<lparr>p_latency = Some new_latency,
            p_packet_loss = Some (min new_packet_loss 0.5),
            p_bandwidth = None\<rparr> s)"

definition clear_congestion :: "IPCManager \<Rightarrow> IPCManager" where
  "clear_congestion s =
     fold (modify_connection (\<lambda>c. c\<lparr>latency := 0.001, packet_loss := 0.0\<rparr>))
       (map snd (connections s)) s"

definition get_neighbors :: "string \<Rightarrow> IPCManager \<Rightarrow> string list" where
  "get_neighbors node s =
     map (\<lambda>((src, tgt), r). tgt)
       (filter (\<lambda>((src, tgt), r). src = node \<and>
                  (case conn_objects s r of None \<Rightarrow> False | Some c \<Rightarrow> enabled c))
          (connections s))"

definition bump_sent :: "IPCManager \<Rightarrow> IPCManager" where
  "bump_sent s = s\<lparr>message_stats := (message_stats s)\<lparr>sent := sent (message_stats s) + 1\<rparr>\<rparr>"

definition bump_delivered :: "IPCManager \<Rightarrow> IPCManager" where
  "bump_delivered s =
     s\<lparr>message_stats := (message_stats s)\<lparr>delivered := delivered (message_stats s) + 1\<rparr>\<rparr>"

definition bump_dropped :: "IPCManager \<Rightarrow> IPCManager" where
  "bump_dropped s =
     s\<lparr>message_stats := (message_stats s)\<lparr>dropped := dropped (message_stats s) + 1\<rparr>\<rparr>"

text \<open>\<open>send_message\<close> returns its boolean result and the new registry state. The queue
  it writes to is the dispatcher's \<open>message_queue\<close>, created unbounded.\<close>

definition send_message :: "string \<Rightarrow> string \<Rightarrow> message \<Rightarrow> IPCManager \<Rightarrow> bool \<times> IPCManager" where
  "send_message src tgt msg s =
     (if \<not> running s then (False, s)
      else
        (case map_of (connections s) (src, tgt) of
           None \<Rightarrow> (False, bump_dropped s)
         | Some r \<Rightarrow>
             (case conn_objects s r of
                None \<Rightarrow> (False, bump_dropped s)
              | Some c \<Rightarrow>
                  if \<not> enabled c then (False, bump_dropped s)
                  else
                    (let ipc_msg = \<lparr>source = src, target = tgt, message = msg, connection = r\<rparr>
                     in case put_nowait ipc_msg (message_queue s) of
                          Some q \<Rightarrow> (True, bump_sent (s\<lparr>message_queue := q\<rparr>))
                        | None \<Rightarrow> (False, bump_dropped s)))))"

definition broadcast_from_node :: "string \<Rightarrow> message \<Rightarrow> IPCManager \<Rightarrow> IPCManager" where
  "broadcast_from_node src msg s =
     fold (\<lambda>neighbor st. snd (send_message src neighbor msg st)) (get_neighbors src s) s"

definition deliver_message :: "string \<Rightarrow> message \<Rightarrow> IPCManager \<Rightarrow> IPCManager" where
  "deliver_message tgt msg s =
     (case map_of (node_queues s) tgt of
        None \<Rightarrow> bump_dropped s
      | Some target_queue \<Rightarrow>
          (case put_nowait msg target_queue of
             Some q \<Rightarrow> bump_delivered (s\<lparr>node_queues := AList.update tgt q (node_queues s)\<rparr>)
           | None \<Rightarrow> bump_dropped s))"

text \<open>\<open>rnd\<close> is the value \<open>random.random()\<close> returns when it is called;
  \<open>sleep_raises d\<close> says that \<open>time.sleep(d)\<close> raises, which it does when the duration
  is out of the range of the platform's clock. The message holds its connection object;
  an address outside the store does not arise, and the first branch only keeps the
  function total.\<close>

definition process_message ::
  "(real \<Rightarrow> bool) \<Rightarrow> real \<Rightarrow> ipc_message \<Rightarrow> IPCManager \<Rightarrow> error + IPCManager" where
  "process_message sleep_raises rnd ipc_msg s =
     (case conn_objects s (connection ipc_msg) of
        None \<Rightarrow> Inl (AttributeError ''connection'')
      | Some c \<Rightarrow>
          if latency c > 0 \<and> sleep_raises (latency c)
          then Inl (OverflowError ''timestamp too large to convert to C _PyTime_t'')
          else if packet_loss c > 0 \<and> rnd < packet_loss c then Inr (bump_dropped s)
          else Inr (deliver_message (target ipc_msg) (message ipc_msg) s))"

text \<open>One iteration of the worker loop \<open>_message_processor\<close>: on an empty queue the
  \<open>get\<close> times out and nothing happens; an exception of \<open>_process_message\<close> is caught
  and logged, the message is gone and no counter has moved. The first component is what
  the iteration logs as errors.\<close>

definition worker_iteration ::
  "(real \<Rightarrow> bool) \<Rightarrow> real \<Rightarrow> IPCManager \<Rightarrow> error list \<times> IPCManager" where
  "worker_iteration sleep_raises rnd s =
     (case items (message_queue s) of
        [] \<Rightarrow> ([], s)
      | ipc_msg # rest \<Rightarrow>
          (let s0 = s\<lparr>message_queue := (message_queue s)\<lparr>items := rest\<rparr>\<rparr>
           in case process_message sleep_raises rnd ipc_msg s0 of
                Inl e \<Rightarrow> ([e], s0)
              | Inr s1 \<Rightarrow> ([], s1)))"

text \<open>The worker loop, one iteration per element of the list of random draws, for as
  long as the registry is running.\<close>

primrec message_processor ::
  "(real \<Rightarrow> bool) \<Rightarrow> real list \<Rightarrow> IPCManager \<Rightarrow> error list \<times> IPCManager" where
  "message_processor sleep_raises [] s = ([], s)"
| "message_processor sleep_raises (rnd # rnds) s =
     (if \<not> running s then ([], s)
      else
        (case worker_iteration sleep_raises rnd s of
           (errs, s1) \<Rightarrow>
             (case message_processor sleep_raises rnds s1 of
                (errs', s2) \<Rightarrow> (errs @ errs', s2))))"

text \<open>One iteration of the loop \<open>_node_message_delivery\<close> of a registered node: the next
  message of the node's inbound queue, if there is one, is taken out and handed to the
  node.\<close>

definition node_message_delivery :: "string \<Rightarrow> IPCManager \<Rightarrow> IPCManager" where
  "node_message_delivery node_name s =
     (if \<not> running s then s
      else
        (case map_of (node_queues s) node_name of
           None \<Rightarrow> s
         | Some node_queue \<Rightarrow>
             (case items node_queue of
                [] \<Rightarrow> s
              | msg # rest \<Rightarrow>
                  s\<lparr>node_queues :=
                      AList.update node_name (node_queue\<lparr>items := rest\<rparr>) (node_queues s)\<rparr>)))"

definition stop :: "IPCManager \<Rightarrow> IPCManager" where
  "stop s = s\<lparr>running := False\<rparr>"

definition cleanup :: "IPCManager \<Rightarrow> IPCManager" where
  "cleanup s =
     (stop s)\<lparr>connections := [], node_queues := [],
              message_queue := (message_queue s)\<lparr>items := []\<rparr>\<rparr>"

text \<open>A sequence of registry operations, run on a freshly constructed registry.\<close>

datatype registry_op =
    CreateConnection string string string string conn_kwargs
  | DisableConnection string string
  | EnableConnection string string
  | EnableAllConnections
  | SetConnectionProperties string string conn_properties
  | SimulateCongestion string string real

fun apply_registry_op :: "registry_op \<Rightarrow> IPCManager \<Rightarrow> IPCManager" where
  "apply_registry_op (CreateConnection n1 n2 i1 i2 kwargs) s = create_connection n1 n2 i1 i2 kwargs s"
| "apply_registry_op (DisableConnection n1 n2) s = disable_connection n1 n2 s"
| "apply_registry_op (EnableConnection n1 n2) s = enable_connection n1 n2 s"
| "apply_registry_op EnableAllConnections s = enable_all_connections s"
| "apply_registry_op (SetConnectionProperties n1 n2 props) s = set_connection_properties n1 n2 props s"
| "apply_registry_op (SimulateCongestion n1 n2 level) s = simulate_congestion n1 n2 level s"

definition run_registry :: "real option \<Rightarrow> registry_op list \<Rightarrow> IPCManager" where
  "run_registry ipc_timeout ops = fold apply_registry_op ops (IPCManager_init ipc_timeout)"

definition symmetric_table :: "('a \<times> 'a \<Rightarrow> 'b option) \<Rightarrow> bool" where
  "symmetric_table m = (\<forall>a b. m (a, b) = m (b, a))"


subsection \<open>Derived notions and example registries\<close>

text \<open>\<open>connection_enabled\<close> is the test \<open>connection and connection.enabled\<close> of
  \<open>send_message\<close>; \<open>target_queue_full\<close> says that the inbound queue of a node cannot take
  another message; \<open>settled_total\<close> counts the messages whose fate the counters record.\<close>

definition connection_enabled :: "string \<Rightarrow> string \<Rightarrow> IPCManager \<Rightarrow> bool" where
  "connection_enabled src tgt s =
     (case get_connection_info src tgt s of None \<Rightarrow> False | Some c \<Rightarrow> enabled c)"

definition target_queue_full :: "string \<Rightarrow> IPCManager \<Rightarrow> bool" where
  "target_queue_full tgt s =
     (case map_of (node_queues s) tgt of None \<Rightarrow> False | Some q \<Rightarrow> full q)"

definition settled_total :: "IPCManager \<Rightarrow> int" where
  "settled_total s = dropped (message_stats s) + delivered (message_stats s)"

text \<open>The messages counted or still waiting for the worker. Every call of
  \<open>send_message\<close> on a running registry adds one to it; an iteration of the worker keeps
  it, unless the worker's exception loses the message.\<close>

definition balance :: "IPCManager \<Rightarrow> int" where
  "balance s = settled_total s + int (length (items (message_queue s)))"


definition no_kwargs :: conn_kwargs where
  "no_kwargs = \<lparr>kw_bandwidth = None, kw_latency = None, kw_packet_loss = None\<rparr>"

definition ping_msg :: message where
  "ping_msg = [(''type'', PStr ''ping''), (''source'', PStr ''A'')]"

text \<open>CPython's \<open>time.sleep\<close> turns the duration into a signed 64-bit count of
  nanoseconds and raises \<open>OverflowError\<close> when it does not fit.\<close>

definition sleep_overflows :: "real \<Rightarrow> bool" where
  "sleep_overflows d = (2 ^ 63 \<le> d * 10 ^ 9)"

text \<open>What can happen to a registry while messages are in flight: a call of
  \<open>send_message\<close>, an iteration of the worker (with its random draw), an iteration of the
  delivery loop of a node. A run of such steps returns the results of the calls, the
  errors the worker logged, and the registry.\<close>

datatype registry_step = Send string string message | Work real | Consume string

fun run_step ::
  "(real \<Rightarrow> bool) \<Rightarrow> registry_step \<Rightarrow> IPCManager \<Rightarrow> (bool list \<times> error list) \<times> IPCManager" where
  "run_step sleep_raises (Send src tgt msg) s =
     (case send_message src tgt msg s of (ok, s1) \<Rightarrow> (([ok], []), s1))"
| "run_step sleep_raises (Work rnd) s =
     (if \<not> running s then (([], []), s)
      else (case worker_iteration sleep_raises rnd s of (errs, s1) \<Rightarrow> (([], errs), s1)))"
| "run_step sleep_raises (Consume node_name) s = (([], []), node_message_delivery node_name s)"

fun run_steps ::
  "(real \<Rightarrow> bool) \<Rightarrow> registry_step list \<Rightarrow> IPCManager \<Rightarrow> (bool list \<times> error list) \<times> IPCManager" where
  "run_steps sleep_raises [] s = (([], []), s)"
| "run_steps sleep_raises (x # xs) s =
     (case run_step sleep_raises x s of
        ((oks, errs), s1) \<Rightarrow>
          (case run_steps sleep_raises xs s1 of
             ((oks', errs'), s2) \<Rightarrow> ((oks @ oks', errs @ errs'), s2)))"

text \<open>A fresh registry with one link A--B; the same registry after A has sent 100
  messages to B and the worker has handed them all to B's inbound queue, which nothing
  drains; and the link with a latency of ten thousand million seconds.\<close>

definition linked_AB :: IPCManager where
  "linked_AB = create_connection ''A'' ''B'' ''eth0'' ''eth0'' no_kwargs (IPCManager_init None)"

definition backlog_AB :: IPCManager where
  "backlog_AB =
     snd (run_steps sleep_overflows
            (replicate 100 (Send ''A'' ''B'' ping_msg) @ replicate 100 (Work 0)) linked_AB)"

definition slow_AB :: IPCManager where
  "slow_AB =
     set_connection_properties ''A'' ''B''
       \<lparr>p_latency = Some 10000000000, p_packet_loss = None, p_bandwidth = None\<rparr> linked_AB"

section \<open>Device descriptors (config_parser.py, topology_builder.py)\<close>

text \<open>The descriptors the simulation is handed; of each dataclass the fields that the
  simulation reads are kept.\<close>

record Interface =
  iface_name :: string
  ip_address :: "string option"
  subnet_mask :: "string option"
  iface_enabled :: bool

record RoutingProtocol =
  protocol :: string
  process_id :: "string option"
  networks :: "string list"
  neighbors :: "string list"
  area :: "string option"

record NetworkDevice =
  name :: string
  device_type :: string
  interfaces :: "Interface list"
  routing_protocols :: "RoutingProtocol list"

record NetworkLink =
  source_device :: string
  target_device :: string
  source_interface :: string
  target_interface :: string

record NetworkTopology =
  devices :: "NetworkDevice list"
  links :: "NetworkLink list"

section \<open>The device actor (network_node.py)\<close>

record NodeStatistics =
  packets_sent :: int
  packets_received :: int
  hello_packets_sent :: int
  arp_requests_sent :: int
  routing_updates :: int
  uptime :: real
  last_activity :: real

text \<open>\<open>thread_alive\<close> stands for \<open>self.thread and self.thread.is_alive()\<close>, \<open>inbox\<close> for the
  node's own unbounded \<open>message_queue\<close>. The registry a node talks to is the one of its
  simulator; the methods that use it take it as an argument and return it. The node's
  background loop only reads \<open>inbox\<close>, which nothing fills (no node is ever registered
  with the registry for delivery), and resends hellos; it is not part of the model.\<close>

record NetworkNode =
  device :: NetworkDevice
  operational :: bool
  powered_on :: bool
  paused :: bool
  thread_alive :: bool
  inbox :: "message list"
  arp_table :: "(string \<times> string) list"
  routing_table :: "(string \<times> string) list"
  interface_states :: "(string \<times> bool) list"
  statistics :: NodeStatistics

text \<open>Truth value of an \<open>Optional[str]\<close>: neither \<open>None\<close> nor the empty string.\<close>

definition truthy :: "string option \<Rightarrow> bool" where
  "truthy x = (case x of None \<Rightarrow> False | Some s \<Rightarrow> s \<noteq> [])"

definition opt_str :: "string option \<Rightarrow> pyval" where
  "opt_str x = (case x of None \<Rightarrow> PNone | Some s \<Rightarrow> PStr s)"

text \<open>\<open>str.split(sep)\<close> for a one-character separator, \<open>sep.join(parts)\<close>, and the decimal
  digits of a natural number (for the f-string of \<open>_get_router_id\<close>).\<close>

fun split_on :: "char \<Rightarrow> string \<Rightarrow> string list" where
  "split_on sep [] = [[]]"
| "split_on sep (c # cs) =
     (if c = sep then [] # split_on sep cs
      else (case split_on sep cs of [] \<Rightarrow> [[c]] | p # ps \<Rightarrow> (c # p) # ps))"

fun join_with :: "string \<Rightarrow> string list \<Rightarrow> string" where
  "join_with sep [] = []"
| "join_with sep [p] = p"
| "join_with sep (p # q # ps) = p @ sep @ join_with sep (q # ps)"

function decimal :: "nat \<Rightarrow> string" where
  "decimal n =
     (if n < 10 then [char_of (48 + n)]
      else decimal (n div 10) @ [char_of (48 + n mod 10)])"
  by pat_completeness auto
termination
  by (relation "measure (\<lambda>n. n)") auto

declare decimal.simps [simp del]

text \<open>\<open>int(x)\<close> of a float truncates towards zero.\<close>

definition py_int :: "real \<Rightarrow> int" where
  "py_int x = (if 0 \<le> x then \<lfloor>x\<rfloor> else \<lceil>x\<rceil>)"

definition NetworkNode_init :: "NetworkDevice \<Rightarrow> NetworkNode" where
  "NetworkNode_init dev =
     \<lparr>device = dev,
      operational = False,
      powered_on = False,
      paused = False,
      thread_alive = False,
      inbox = [],
      arp_table = [],
      routing_table = [],
      interface_states =
        fold (\<lambda>interface st. AList.update (iface_name interface) (iface_enabled interface) st)
          (interfaces dev) [],
      statistics = \<lparr>packets_sent = 0, packets_received = 0, hello_packets_sent = 0,
        arp_requests_sent = 0, routing_updates = 0, uptime = 0, last_activity = 0\<rparr>\<rparr>"

text \<open>\<open>start\<close> and \<open>stop\<close>. \<open>stop\<close> sets the stop event, which the loop tests at each
  round, and joins the thread; the node's thread counts as ended from then on.\<close>

definition node_start :: "NetworkNode \<Rightarrow> NetworkNode" where
  "node_start node = (if thread_alive node then node else node\<lparr>thread_alive := True\<rparr>)"

definition node_stop :: "NetworkNode \<Rightarrow> NetworkNode" where
  "node_stop node = node\<lparr>thread_alive := False, operational := False, powered_on := False\<rparr>"

definition node_pause :: "NetworkNode \<Rightarrow> NetworkNode" where
  "node_pause node = node\<lparr>paused := True\<rparr>"

definition node_resume :: "NetworkNode \<Rightarrow> NetworkNode" where
  "node_resume node = node\<lparr>paused := False\<rparr>"

definition power_on :: "NetworkNode \<Rightarrow> NetworkNode" where
  "power_on node =
     (let n1 = node\<lparr>powered_on := True\<rparr>;
          n2 = fold (\<lambda>interface n.
                  if iface_enabled interface
                  then n\<lparr>interface_states :=
                         AList.update (iface_name interface) True (interface_states n)\<rparr>
                  else n)
                (interfaces (device n1)) n1
      in n2\<lparr>operational := True\<rparr>)"

definition get_gateway_ip :: "Interface \<Rightarrow> string" where
  "get_gateway_ip interface =
     (case ip_address interface of
        None \<Rightarrow> ''0.0.0.0''
      | Some ip \<Rightarrow>
          if ip \<noteq> [] \<and> truthy (subnet_mask interface)
          then join_with ''.'' (butlast (split_on (CHR ''.'') ip) @ [''1''])
          else ''0.0.0.0'')"

fun first_ip :: "Interface list \<Rightarrow> string option" where
  "first_ip [] = None"
| "first_ip (interface # rest) =
     (case ip_address interface of
        None \<Rightarrow> first_ip rest
      | Some ip \<Rightarrow> if ip \<noteq> [] then Some ip else first_ip rest)"

text \<open>\<open>py_hash\<close> is Python's \<open>hash\<close> on strings, which differs from process to process.\<close>

definition get_router_id :: "(string \<Rightarrow> int) \<Rightarrow> NetworkNode \<Rightarrow> string" where
  "get_router_id py_hash node =
     (case first_ip (interfaces (device node)) of
        Some ip \<Rightarrow> ip
      | None \<Rightarrow> ''192.168.1.'' @ decimal (nat (py_hash (name (device node)) mod 254 + 1)))"

definition bump_packets_sent :: "NetworkNode \<Rightarrow> NetworkNode" where
  "bump_packets_sent node =
     node\<lparr>statistics := (statistics node)\<lparr>packets_sent := packets_sent (statistics node) + 1\<rparr>\<rparr>"

definition broadcast_message ::
  "message \<Rightarrow> NetworkNode \<Rightarrow> IPCManager \<Rightarrow> NetworkNode \<times> IPCManager" where
  "broadcast_message msg node ipc =
     (bump_packets_sent node, broadcast_from_node (name (device node)) msg ipc)"

definition send_message_to ::
  "string \<Rightarrow> message \<Rightarrow> NetworkNode \<Rightarrow> IPCManager \<Rightarrow> NetworkNode \<times> IPCManager" where
  "send_message_to tgt msg node ipc =
     (bump_packets_sent node, snd (send_message (name (device node)) tgt msg ipc))"

definition perform_arp_discovery :: "NetworkNode \<Rightarrow> IPCManager \<Rightarrow> NetworkNode \<times> IPCManager" where
  "perform_arp_discovery node ipc =
     (if \<not> operational node then (node, ipc)
      else
        fold (\<lambda>interface (n, i).
            if truthy (ip_address interface) \<and>
               (case map_of (interface_states n) (iface_name interface) of
                  None \<Rightarrow> False | Some up \<Rightarrow> up)
            then
              (let arp_message =
                     [(''type'', PStr ''arp_request''),
                      (''source'', PStr (name (device n))),
                      (''source_ip'', opt_str (ip_address interface)),
                      (''target_ip'', PStr (get_gateway_ip interface)),
                      (''interface'', PStr (iface_name interface))]
               in case broadcast_message arp_message n i of
                    (n1, i1) \<Rightarrow>
                      (n1\<lparr>statistics := (statistics n1)
                            \<lparr>arp_requests_sent := arp_requests_sent (statistics n1) + 1\<rparr>\<rparr>, i1))
            else (n, i))
          (interfaces (device node)) (node, ipc))"

definition send_ospf_hello ::
  "(string \<Rightarrow> int) \<Rightarrow> NetworkNode \<Rightarrow> IPCManager \<Rightarrow> NetworkNode \<times> IPCManager" where
  "send_ospf_hello py_hash node ipc =
     (if \<not> operational node \<or> device_type (device node) \<noteq> ''router'' then (node, ipc)
      else
        (let ospf_processes =
               filter (\<lambda>rp. protocol rp = ''ospf'') (routing_protocols (device node))
         in fold (\<lambda>ospf_process (n, i).
                let hello_message =
                      [(''type'', PStr ''ospf_hello''),
                       (''source'', PStr (name (device n))),
                       (''process_id'', opt_str (process_id ospf_process)),
                       (''area'', PStr (case area ospf_process of
                                         None \<Rightarrow> ''0''
                                       | Some a \<Rightarrow> if a \<noteq> [] then a else ''0'')),
                       (''router_id'', PStr (get_router_id py_hash n))]
                in case broadcast_message hello_message n i of
                     (n1, i1) \<Rightarrow>
                       (n1\<lparr>statistics := (statistics n1)
                             \<lparr>hello_packets_sent := hello_packets_sent (statistics n1) + 1\<rparr>\<rparr>, i1))
              ospf_processes (node, ipc)))"

definition update_routing_table :: "NetworkNode \<Rightarrow> NetworkNode" where
  "update_routing_table node =
     (if \<not> operational node \<or> device_type (device node) \<noteq> ''router'' then node
      else
        (let n1 = fold (\<lambda>rp n.
                     fold (\<lambda>network n'.
                          n'\<lparr>routing_table :=
                               AList.update network ''directly_connected'' (routing_table n')\<rparr>)
                       (networks rp) n)
                   (routing_protocols (device node)) node
         in n1\<lparr>statistics := (statistics n1)
                \<lparr>routing_updates := routing_updates (statistics n1) + 1\<rparr>\<rparr>))"

text \<open>\<open>now\<close> is the reading of \<open>time.time()\<close> when the update is built.\<close>

definition lsa_message :: "(string \<Rightarrow> int) \<Rightarrow> real \<Rightarrow> NetworkNode \<Rightarrow> message" where
  "lsa_message py_hash now node =
     [(''type'', PStr ''ospf_lsa''),
      (''source'', PStr (name (device node))),
      (''router_id'', PStr (get_router_id py_hash node)),
      (''sequence'', PInt (py_int now))]"

definition trigger_ospf_reconvergence ::
  "(string \<Rightarrow> int) \<Rightarrow> real \<Rightarrow> NetworkNode \<Rightarrow> IPCManager \<Rightarrow> NetworkNode \<times> IPCManager" where
  "trigger_ospf_reconvergence py_hash now node ipc =
     broadcast_message (lsa_message py_hash now node) node ipc"

definition handle_link_failure ::
  "(string \<Rightarrow> int) \<Rightarrow> real \<Rightarrow> string \<Rightarrow> NetworkNode \<Rightarrow> IPCManager \<Rightarrow> NetworkNode \<times> IPCManager" where
  "handle_link_failure py_hash now neighbor node ipc =
     (let routes_to_remove =
            map fst (filter (\<lambda>(network, next_hop). next_hop = neighbor) (routing_table node));
          n1 = fold (\<lambda>network n. n\<lparr>routing_table := AList.delete network (routing_table n)\<rparr>)
                 routes_to_remove node
      in if device_type (device n1) = ''router''
         then trigger_ospf_reconvergence py_hash now n1 ipc
         else (n1, ipc))"

definition reconverge_routing ::
  "(string \<Rightarrow> int) \<Rightarrow> NetworkNode \<Rightarrow> IPCManager \<Rightarrow> NetworkNode \<times> IPCManager" where
  "reconverge_routing py_hash node ipc =
     (if device_type (device node) \<noteq> ''router'' then (node, ipc)
      else (case send_ospf_hello py_hash node ipc of
              (n1, i1) \<Rightarrow> (update_routing_table n1, i1)))"

definition flush_interface_routes :: "string \<Rightarrow> NetworkNode \<Rightarrow> NetworkNode" where
  "flush_interface_routes interface_name node = node"

definition simulate_interface_change ::
  "NetworkNode \<Rightarrow> IPCManager \<Rightarrow> NetworkNode \<times> IPCManager" where
  "simulate_interface_change node ipc =
     (case interfaces (device node) of
        [] \<Rightarrow> (node, ipc)
      | interface # _ \<Rightarrow>
          (let current_state =
                 (case map_of (interface_states node) (iface_name interface) of
                    None \<Rightarrow> True | Some up \<Rightarrow> up);
               n1 = node\<lparr>interface_states :=
                      AList.update (iface_name interface) (\<not> current_state)
                        (interface_states node)\<rparr>
           in if \<not> current_state then perform_arp_discovery n1 ipc
              else (flush_interface_routes (iface_name interface) n1, ipc)))"

definition simulate_device_failure :: "NetworkNode \<Rightarrow> NetworkNode" where
  "simulate_device_failure node =
     (let n1 = node\<lparr>operational := False, powered_on := False\<rparr>;
          n2 = n1\<lparr>arp_table := [], routing_table := []\<rparr>
      in fold (\<lambda>interface_name n.
              n\<lparr>interface_states := AList.update interface_name False (interface_states n)\<rparr>)
           (map fst (interface_states n2)) n2)"

definition simulate_interface_down :: "string \<Rightarrow> NetworkNode \<Rightarrow> NetworkNode" where
  "simulate_interface_down interface_name node =
     (if map_of (interface_states node) interface_name \<noteq> None
      then flush_interface_routes interface_name
             (node\<lparr>interface_states :=
                    AList.update interface_name False (interface_states node)\<rparr>)
      else node)"

definition is_operational :: "NetworkNode \<Rightarrow> bool" where
  "is_operational node = operational node"

definition get_interface_states :: "NetworkNode \<Rightarrow> (string \<times> bool) list" where
  "get_interface_states node = interface_states node"

definition get_routing_table :: "NetworkNode \<Rightarrow> (string \<times> string) list" where
  "get_routing_table node = routing_table node"

definition get_arp_table :: "NetworkNode \<Rightarrow> (string \<times> string) list" where
  "get_arp_table node = arp_table node"

definition set_operational_state :: "bool \<Rightarrow> NetworkNode \<Rightarrow> NetworkNode" where
  "set_operational_state b node = node\<lparr>operational := b\<rparr>"

section \<open>The scenario orchestrator (simulator.py)\<close>

text \<open>An entry of the event log, without its wall-clock stamp.\<close>

record event =
  ev_type :: string
  ev_message :: string
  ev_device :: "string option"

record node_state =
  ns_operational :: bool
  ns_interfaces_up :: "(string \<times> bool) list"
  ns_routing_table_size :: nat
  ns_arp_table_size :: nat

record node_counters =
  nc_statistics :: NodeStatistics
  nc_operational :: bool
  nc_interfaces_up :: nat

record sim_statistics =
  total_events :: nat
  nodes_simulated :: nat
  event_types :: "(string \<times> int) list"
  node_statistics :: "(string \<times> node_counters) list"

text \<open>The result record, without the wall-clock duration.\<close>

record SimulationResult =
  scenario :: string
  res_events :: "event list"
  res_statistics :: sim_statistics
  node_states :: "(string \<times> node_state) list"

text \<open>\<open>ipc_timeout\<close> is the entry of that name in the simulation configuration, the only
  one that is read.\<close>

record NetworkSimulator =
  ipc_timeout :: "real option"
  nodes :: "(string \<times> NetworkNode) list"
  ipc_manager :: "IPCManager option"
  simulation_running :: bool
  simulation_paused :: bool
  events :: "event list"

text \<open>What a run takes from outside: Python's string hash, the pair of names
  \<open>random.sample\<close> draws, the index \<open>random.choice\<close> draws, and the two clock readings
  that stamp the link-state updates of the scripted link failure.\<close>

record environment =
  env_hash :: "string \<Rightarrow> int"
  env_sample :: "string \<times> string"
  env_choice :: nat
  env_now1 :: real
  env_now2 :: real

text \<open>Keyword arguments of \<open>inject_fault\<close>.\<close>

record fault_kwargs =
  fk_neighbor :: "string option"
  fk_interface :: "string option"

definition NetworkSimulator_init :: "real option \<Rightarrow> NetworkSimulator" where
  "NetworkSimulator_init t =
     \<lparr>ipc_timeout = t, nodes = [], ipc_manager = None, simulation_running = False,
      simulation_paused = False, events = []\<rparr>"

text \<open>\<open>for node in self.nodes.values(): ...\<close> with a body that changes the node at hand and
  objects shared by all iterations (the event log, the registry).\<close>

fun for_each_node ::
  "(NetworkNode \<Rightarrow> 'st \<Rightarrow> NetworkNode \<times> 'st) \<Rightarrow> (string \<times> NetworkNode) list \<Rightarrow> 'st
     \<Rightarrow> (string \<times> NetworkNode) list \<times> 'st" where
  "for_each_node body [] st = ([], st)"
| "for_each_node body ((k, node) # rest) st =
     (case body node st of
        (node', st') \<Rightarrow>
          (case for_each_node body rest st' of
             (rest', st'') \<Rightarrow> ((k, node') # rest', st'')))"

text \<open>A node method that talks to the registry, run on the simulator's registry. Every
  node is constructed after the registry and with it, so the registry is there whenever
  a node is; the first equation only keeps the function total.\<close>

fun with_ipc ::
  "(NetworkNode \<Rightarrow> IPCManager \<Rightarrow> NetworkNode \<times> IPCManager) \<Rightarrow> NetworkNode \<Rightarrow> IPCManager option
     \<Rightarrow> NetworkNode \<times> IPCManager option" where
  "with_ipc f node None = (node, None)"
| "with_ipc f node (Some ipc) = (case f node ipc of (node', ipc') \<Rightarrow> (node', Some ipc'))"

text \<open>\<open>self.nodes[k].method(...)\<close> when \<open>k in self.nodes\<close>.\<close>

definition at_node ::
  "string \<Rightarrow> (NetworkNode \<Rightarrow> IPCManager \<Rightarrow> NetworkNode \<times> IPCManager) \<Rightarrow> NetworkSimulator
     \<Rightarrow> NetworkSimulator" where
  "at_node k f s =
     (case map_of (nodes s) k of
        None \<Rightarrow> s
      | Some node \<Rightarrow>
          (case with_ipc f node (ipc_manager s) of
             (node', ipc') \<Rightarrow> s\<lparr>nodes := AList.update k node' (nodes s), ipc_manager := ipc'\<rparr>))"

definition mk_event :: "string \<Rightarrow> string \<Rightarrow> string option \<Rightarrow> event" where
  "mk_event event_type msg dev = \<lparr>ev_type = event_type, ev_message = msg, ev_device = dev\<rparr>"

definition log_event ::
  "string \<Rightarrow> string \<Rightarrow> string option \<Rightarrow> NetworkSimulator \<Rightarrow> NetworkSimulator" where
  "log_event event_type msg dev s = s\<lparr>events := events s @ [mk_event event_type msg dev]\<rparr>"

text \<open>The bodies of the two loops of \<open>_initialize_simulation\<close>.\<close>

definition create_node :: "NetworkDevice \<Rightarrow> NetworkSimulator \<Rightarrow> NetworkSimulator" where
  "create_node dev st =
     st\<lparr>nodes := AList.update (name dev) (NetworkNode_init dev) (nodes st)\<rparr>"

definition connect_link :: "NetworkLink \<Rightarrow> NetworkSimulator \<Rightarrow> NetworkSimulator" where
  "connect_link link st =
     (if map_of (nodes st) (source_device link) \<noteq> None \<and>
         map_of (nodes st) (target_device link) \<noteq> None
      then st\<lparr>ipc_manager :=
             map_option
               (create_connection (source_device link) (target_device link)
                  (source_interface link) (target_interface link) no_kwargs)
               (ipc_manager st)\<rparr>
      else st)"

definition initialize_simulation ::
  "NetworkTopology \<Rightarrow> NetworkDevice list \<Rightarrow> NetworkSimulator \<Rightarrow> NetworkSimulator" where
  "initialize_simulation topology devs s =
     (let s1 = s\<lparr>ipc_manager := Some (IPCManager_init (ipc_timeout s))\<rparr>;
          s2 = fold create_node devs s1;
          s3 = fold connect_link (links topology) s2;
          s4 = s3\<lparr>nodes := map (\<lambda>(k, node). (k, node_start node)) (nodes s3)\<rparr>;
          s5 = s4\<lparr>simulation_running := True\<rparr>
      in log_event ''simulation_started'' ''Simulation environment initialized'' None s5)"

definition startup_order :: "string list" where
  "startup_order = [''router'', ''switch'', ''firewall'']"

definition simulate_device_startup :: "NetworkSimulator \<Rightarrow> NetworkSimulator" where
  "simulate_device_startup s =
     fold (\<lambda>dtype st.
         case for_each_node
                (\<lambda>node evs.
                   if device_type (device node) = dtype
                   then (power_on node,
                         evs @ [mk_event ''device_startup''
                                  (''Device '' @ name (device node) @ '' starting up'')
                                  (Some (name (device node)))])
                   else (node, evs))
                (nodes st) (events st) of
           (ns, evs) \<Rightarrow> st\<lparr>nodes := ns, events := evs\<rparr>)
       startup_order s"

definition simulate_arp_discovery :: "NetworkSimulator \<Rightarrow> NetworkSimulator" where
  "simulate_arp_discovery s =
     (case for_each_node
             (\<lambda>node (evs, ipc).
                case with_ipc perform_arp_discovery node ipc of
                  (node', ipc') \<Rightarrow>
                    (node',
                     (evs @ [mk_event ''arp_discovery''
                               (''Device '' @ name (device node) @ '' performing ARP discovery'')
                               (Some (name (device node)))],
                      ipc')))
             (nodes s) (events s, ipc_manager s) of
        (ns, (evs, ipc)) \<Rightarrow> s\<lparr>nodes := ns, events := evs, ipc_manager := ipc\<rparr>)"

definition simulate_routing_convergence :: "environment \<Rightarrow> NetworkSimulator \<Rightarrow> NetworkSimulator" where
  "simulate_routing_convergence env s =
     (case for_each_node
             (\<lambda>node (evs, ipc).
                if device_type (device node) = ''router'' \<and>
                   list_ex (\<lambda>rp. protocol rp = ''ospf'') (routing_protocols (device node))
                then
                  (case with_ipc (send_ospf_hello (env_hash env)) node ipc of
                     (node', ipc') \<Rightarrow>
                       (node',
                        (evs @ [mk_event ''ospf_hello''
                                  (''Router '' @ name (device node) @ '' sending OSPF hello packets'')
                                  (Some (name (device node)))],
                         ipc')))
                else (node, (evs, ipc)))
             (nodes s) (events s, ipc_manager s) of
        (ns1, (evs1, ipc1)) \<Rightarrow>
          (case for_each_node
                  (\<lambda>node evs.
                     if device_type (device node) = ''router''
                     then (update_routing_table node,
                           evs @ [mk_event ''routing_table_update''
                                    (''Router '' @ name (device node) @ '' updating routing table'')
                                    (Some (name (device node)))])
                     else (node, evs))
                  ns1 evs1 of
             (ns2, evs2) \<Rightarrow> s\<lparr>nodes := ns2, events := evs2, ipc_manager := ipc1\<rparr>))"

definition simulate_network_stabilization :: "NetworkSimulator \<Rightarrow> NetworkSimulator" where
  "simulate_network_stabilization s =
     (let s1 = log_event ''network_stable'' ''Network reached stable state'' None s
      in s1\<lparr>nodes := map (\<lambda>(k, node). (k, set_operational_state True node)) (nodes s1)\<rparr>)"

definition run_day1_scenario :: "environment \<Rightarrow> NetworkSimulator \<Rightarrow> NetworkSimulator" where
  "run_day1_scenario env s =
     (let s1 = log_event ''phase_start'' ''Phase 1: Device power-on sequence'' None s;
          s2 = simulate_device_startup s1;
          s3 = log_event ''phase_start'' ''Phase 2: ARP and neighbor discovery'' None s2;
          s4 = simulate_arp_discovery s3;
          s5 = log_event ''phase_start'' ''Phase 3: Routing protocol convergence'' None s4;
          s6 = simulate_routing_convergence env s5;
          s7 = log_event ''phase_start'' ''Phase 4: Network stabilization'' None s6
      in simulate_network_stabilization s7)"

definition simulate_link_failures :: "environment \<Rightarrow> NetworkSimulator \<Rightarrow> NetworkSimulator" where
  "simulate_link_failures env s =
     (if 2 \<le> length (nodes s)
      then
        (case env_sample env of
           (n1, n2) \<Rightarrow>
             (let s1 = log_event ''link_failure''
                         (''Link failure between '' @ n1 @ '' and '' @ n2) None s;
                  s2 = s1\<lparr>ipc_manager := map_option (disable_connection n1 n2) (ipc_manager s1)\<rparr>;
                  s3 = at_node n1 (handle_link_failure (env_hash env) (env_now1 env) n2) s2
              in at_node n2 (handle_link_failure (env_hash env) (env_now2 env) n1) s3))
      else s)"

definition simulate_network_recovery :: "environment \<Rightarrow> NetworkSimulator \<Rightarrow> NetworkSimulator" where
  "simulate_network_recovery env s =
     (let s1 = log_event ''recovery_start'' ''Starting network recovery'' None s;
          s2 = s1\<lparr>ipc_manager := map_option enable_all_connections (ipc_manager s1)\<rparr>
      in case for_each_node
                (\<lambda>node ipc.
                   if device_type (device node) = ''router''
                   then with_ipc (reconverge_routing (env_hash env)) node ipc
                   else (node, ipc))
                (nodes s2) (ipc_manager s2) of
           (ns, ipc) \<Rightarrow>
             log_event ''recovery_complete'' ''Network recovery completed'' None
               (s2\<lparr>nodes := ns, ipc_manager := ipc\<rparr>))"

definition simulate_configuration_changes :: "environment \<Rightarrow> NetworkSimulator \<Rightarrow> NetworkSimulator" where
  "simulate_configuration_changes env s =
     (let routers = filter (\<lambda>(k, node). device_type (device node) = ''router'') (nodes s)
      in if routers = [] then s
         else
           (case routers ! (env_choice env mod length routers) of
              (k, router) \<Rightarrow>
                at_node k simulate_interface_change
                  (log_event ''config_change''
                     (''Configuration change on '' @ name (device router))
                     (Some (name (device router))) s)))"

definition run_day2_scenario :: "environment \<Rightarrow> NetworkSimulator \<Rightarrow> NetworkSimulator" where
  "run_day2_scenario env s =
     (let s0 = simulate_network_stabilization s;
          s1 = log_event ''phase_start'' ''Phase 1: Normal network operation'' None s0;
          s2 = log_event ''phase_start'' ''Phase 2: Link failure simulation'' None s1;
          s3 = simulate_link_failures env s2;
          s4 = log_event ''phase_start'' ''Phase 3: Network recovery'' None s3;
          s5 = simulate_network_recovery env s4;
          s6 = log_event ''phase_start'' ''Phase 4: Configuration change impact'' None s5
      in simulate_configuration_changes env s6)"

definition get_statistics :: "NetworkNode \<Rightarrow> node_counters" where
  "get_statistics node =
     \<lparr>nc_statistics = statistics node,
      nc_operational = operational node,
      nc_interfaces_up = length (filter (\<lambda>(k, up). up) (interface_states node))\<rparr>"

definition collect_statistics :: "NetworkSimulator \<Rightarrow> sim_statistics" where
  "collect_statistics s =
     \<lparr>total_events = length (events s),
      nodes_simulated = length (nodes s),
      event_types =
        fold (\<lambda>e counts.
            AList.update (ev_type e)
              ((case map_of counts (ev_type e) of None \<Rightarrow> 0 | Some c \<Rightarrow> c) + 1) counts)
          (events s) [],
      node_statistics = map (\<lambda>(k, node). (k, get_statistics node)) (nodes s)\<rparr>"

definition collect_node_states :: "NetworkSimulator \<Rightarrow> (string \<times> node_state) list" where
  "collect_node_states s =
     map (\<lambda>(k, node).
           (k, \<lparr>ns_operational = is_operational node,
                ns_interfaces_up = get_interface_states node,
                ns_routing_table_size = length (get_routing_table node),
                ns_arp_table_size = length (get_arp_table node)\<rparr>))
       (nodes s)"

text \<open>\<open>_cleanup_simulation\<close> stops every node, cleans the registry up and empties the
  node table and the event log. The node objects leave the table; the first component
  is these objects as the method leaves them, the second the simulator.\<close>

definition cleanup_simulation ::
  "NetworkSimulator \<Rightarrow> (string \<times> NetworkNode) list \<times> NetworkSimulator" where
  "cleanup_simulation s =
     (let s1 = s\<lparr>simulation_running := False\<rparr>;
          s2 = s1\<lparr>nodes := map (\<lambda>(k, node). (k, node_stop node)) (nodes s1)\<rparr>;
          s3 = s2\<lparr>ipc_manager := map_option cleanup (ipc_manager s2)\<rparr>
      in (nodes s3, s3\<lparr>nodes := [], events := []\<rparr>))"

definition collect_result :: "string \<Rightarrow> NetworkSimulator \<Rightarrow> SimulationResult" where
  "collect_result scen s =
     \<lparr>scenario = scen, res_events = events s, res_statistics = collect_statistics s,
      node_states = collect_node_states s\<rparr>"

text \<open>The \<open>try\<close> block of \<open>run_simulation\<close>: its outcome (the result, or the exception
  that leaves the block) and the state of the simulator when the block is left.\<close>

definition run_body ::
  "environment \<Rightarrow> NetworkTopology \<Rightarrow> NetworkDevice list \<Rightarrow> string \<Rightarrow> NetworkSimulator
     \<Rightarrow> (error + SimulationResult) \<times> NetworkSimulator" where
  "run_body env topology devs scen s =
     (let s1 = initialize_simulation topology devs s
      in if scen = ''day1''
         then (let s2 = run_day1_scenario env s1 in (Inr (collect_result scen s2), s2))
         else if scen = ''day2''
         then (let s2 = run_day2_scenario env s1 in (Inr (collect_result scen s2), s2))
         else (Inl (ValueError (''Unknown scenario: '' @ scen)), s1))"

text \<open>\<open>run_simulation\<close>: the \<open>try\<close> block, then the \<open>finally\<close> clause. It returns
  the outcome, the node objects as the teardown leaves them, and the simulator.\<close>

definition run_simulation ::
  "environment \<Rightarrow> NetworkTopology \<Rightarrow> NetworkDevice list \<Rightarrow> string \<Rightarrow> NetworkSimulator
     \<Rightarrow> (error + SimulationResult) \<times> (string \<times> NetworkNode) list \<times> NetworkSimulator" where
  "run_simulation env topology devs scen s =
     (case run_body env topology devs scen s of
        (outcome, s') \<Rightarrow> (outcome, cleanup_simulation s'))"

text \<open>\<open>inject_fault\<close> returns the exception it raises, if any, and the state it leaves.
  \<open>now\<close> is the clock reading that stamps the link-state update of a link failure. A
  keyword argument counts when it is given and not empty.\<close>

definition inject_fault ::
  "(string \<Rightarrow> int) \<Rightarrow> real \<Rightarrow> string \<Rightarrow> string \<Rightarrow> fault_kwargs \<Rightarrow> NetworkSimulator
     \<Rightarrow> error option \<times> NetworkSimulator" where
  "inject_fault py_hash now fault_type tgt kwargs s0 =
     (let s = log_event ''fault_injection''
                (''Injecting '' @ fault_type @ '' fault on '' @ tgt) None s0
      in if fault_type = ''link_failure'' \<and> map_of (nodes s) tgt \<noteq> None
         then
           (if truthy (fk_neighbor kwargs)
            then
              (case fk_neighbor kwargs of
                 None \<Rightarrow> (None, s)
               | Some neighbor \<Rightarrow>
                   (case ipc_manager s of
                      None \<Rightarrow>
                        (Some (AttributeError
                           ''NoneType object has no attribute disable_connection''), s)
                    | Some ipc \<Rightarrow>
                        (None,
                         at_node tgt (handle_link_failure py_hash now neighbor)
                           (s\<lparr>ipc_manager := Some (disable_connection tgt neighbor ipc)\<rparr>))))
            else (None, s))
         else if fault_type = ''device_failure'' \<and> map_of (nodes s) tgt \<noteq> None
         then
           (case map_of (nodes s) tgt of
              None \<Rightarrow> (None, s)
            | Some node \<Rightarrow>
                (None, s\<lparr>nodes := AList.update tgt (simulate_device_failure node) (nodes s)\<rparr>))
         else if fault_type = ''interface_down'' \<and> map_of (nodes s) tgt \<noteq> None
         then
           (if truthy (fk_interface kwargs)
            then
              (case (fk_interface kwargs, map_of (nodes s) tgt) of
                 (Some interface, Some node) \<Rightarrow>
                   (None,
                    s\<lparr>nodes := AList.update tgt (simulate_interface_down interface node) (nodes s)\<rparr>)
               | _ \<Rightarrow> (None, s))
            else (None, s))
         else (None, s))"

section \<open>An example network\<close>

text \<open>One router, one switch and one pc, every two of them linked.\<close>

definition router_R1 :: NetworkDevice where
  "router_R1 =
     \<lparr>name = ''R1'', device_type = ''router'',
      interfaces =
        [\<lparr>iface_name = ''Gi0/0'', ip_address = Some ''10.0.0.1'',
          subnet_mask = Some ''255.255.255.0'', iface_enabled = True\<rparr>],
      routing_protocols =
        [\<lparr>protocol = ''ospf'', process_id = Some ''1'', networks = [''10.0.0.0/24''],
          neighbors = [], area = Some ''0''\<rparr>]\<rparr>"

definition switch_SW1 :: NetworkDevice where
  "switch_SW1 =
     \<lparr>name = ''SW1'', device_type = ''switch'',
      interfaces =
        [\<lparr>iface_name = ''Fa0/1'', ip_address = None, subnet_mask = None,
          iface_enabled = True\<rparr>],
      routing_protocols = []\<rparr>"

definition pc_PC1 :: NetworkDevice where
  "pc_PC1 =
     \<lparr>name = ''PC1'', device_type = ''pc'',
      interfaces =
        [\<lparr>iface_name = ''eth0'', ip_address = Some ''10.0.0.10'',
          subnet_mask = Some ''255.255.255.0'', iface_enabled = True\<rparr>],
      routing_protocols = []\<rparr>"

definition triangle :: NetworkTopology where
  "triangle =
     \<lparr>devices = [router_R1, switch_SW1, pc_PC1],
      links =
        [\<lparr>source_device = ''R1'', target_device = ''SW1'',
          source_interface = ''Gi0/0'', target_interface = ''Fa0/1''\<rparr>,
         \<lparr>source_device = ''R1'', target_device = ''PC1'',
          source_interface = ''Gi0/1'', target_interface = ''eth0''\<rparr>,
         \<lparr>source_device = ''SW1'', target_device = ''PC1'',
          source_interface = ''Fa0/2'', target_interface = ''eth1''\<rparr>]\<rparr>"

definition env0 :: environment where
  "env0 = \<lparr>env_hash = (\<lambda>_. 0), env_sample = (''R1'', ''SW1''), env_choice = 0,
            env_now1 = 0, env_now2 = 0\<rparr>"

definition sim0 :: NetworkSimulator where
  "sim0 = NetworkSimulator_init None"

text \<open>The router of the example after power-on and a routing table update, and a
  simulator that holds this router and the switch.\<close>

definition router_up :: NetworkNode where
  "router_up = update_routing_table (power_on (NetworkNode_init router_R1))"

definition two_nodes :: NetworkSimulator where
  "two_nodes =
     sim0\<lparr>nodes := [(''R1'', router_up), (''SW1'', power_on (NetworkNode_init switch_SW1))],
          ipc_manager := Some linked_AB\<rparr>"



section \<open>Orchestrator: derived notions for the first scenario\<close>

text \<open>The devices of the node table in its order, and the kinds of the logged events.\<close>

definition roster :: "NetworkSimulator \<Rightarrow> NetworkDevice list" where
  "roster s = map (\<lambda>e. device (snd e)) (nodes s)"

definition event_kinds :: "NetworkSimulator \<Rightarrow> string list" where
  "event_kinds s = map ev_type (events s)"

text \<open>One pass of the startup loop, for one device type.\<close>

definition startup_pass :: "string \<Rightarrow> NetworkSimulator \<Rightarrow> NetworkSimulator" where
  "startup_pass dtype st =
     (case for_each_node
                (\<lambda>node evs.
                   if device_type (device node) = dtype
                   then (power_on node,
                         evs @ [mk_event ''device_startup''
                                  (''Device '' @ name (device node) @ '' starting up'')
                                  (Some (name (device node)))])
                   else (node, evs))
                (nodes st) (events st) of
           (ns, evs) \<Rightarrow> st\<lparr>nodes := ns, events := evs\<rparr>)"

text \<open>The devices that send a hello in the convergence phase: routers that list the
  protocol \<open>ospf\<close>.\<close>

definition speaks_ospf :: "NetworkDevice \<Rightarrow> bool" where
  "speaks_ospf d =
     (device_type d = ''router'' \<and> list_ex (\<lambda>rp. protocol rp = ''ospf'') (routing_protocols d))"

section \<open>Registry: frame lemmas\<close>

lemma connections_ensure_node_queue [simp]:
  "connections (ensure_node_queue n s) = connections s"
  by (simp add: ensure_node_queue_def)

lemma conn_objects_ensure_node_queue [simp]:
  "conn_objects (ensure_node_queue n s) = conn_objects s"
  by (simp add: ensure_node_queue_def)

lemma connections_modify_connection [simp]:
  "connections (modify_connection f r s) = connections s"
  by (simp add: modify_connection_def split: option.splits)

lemma connections_modify_at [simp]:
  "connections (modify_at f k s) = connections s"
  by (simp add: modify_at_def split: option.splits)

lemma connections_fold_modify_connection [simp]:
  "connections (fold (modify_connection f) rs s) = connections s"
  by (induction rs arbitrary: s) simp_all

lemma connections_fold_modify_at [simp]:
  "connections (fold (modify_at f) ks s) = connections s"
  by (induction ks arbitrary: s) simp_all

lemma connections_create_connection_list:
  "connections (create_connection n1 n2 i1 i2 kw s) =
     AList.update (n2, n1) (next_ref s) (AList.update (n1, n2) (next_ref s) (connections s))"
  unfolding create_connection_def Let_def by simp

lemma connections_create_connection:
  "map_of (connections (create_connection n1 n2 i1 i2 kw s)) =
     (map_of (connections s))((n1, n2) \<mapsto> next_ref s, (n2, n1) \<mapsto> next_ref s)"
  unfolding connections_create_connection_list update_conv' ..

lemma connections_set_connection_properties [simp]:
  "connections (set_connection_properties n1 n2 props s) = connections s"
  unfolding set_connection_properties_def by (rule connections_fold_modify_at)

lemma connections_simulate_congestion [simp]:
  "connections (simulate_congestion n1 n2 level s) = connections s"
  unfolding simulate_congestion_def Let_def by (rule connections_set_connection_properties)

lemma connections_apply_registry_op:
  "map_of (connections (apply_registry_op op s)) = map_of (connections s)
   \<or> (\<exists>n1 n2 r. map_of (connections (apply_registry_op op s)) =
         (map_of (connections s))((n1, n2) \<mapsto> r, (n2, n1) \<mapsto> r))"
proof (cases op)
  case (CreateConnection n1 n2 i1 i2 kw)
  then show ?thesis
    using connections_create_connection [of n1 n2 i1 i2 kw s] by auto
next
  case (DisableConnection n1 n2)
  then show ?thesis by (simp add: disable_connection_def)
next
  case (EnableConnection n1 n2)
  then show ?thesis by (simp add: enable_connection_def)
next
  case EnableAllConnections
  then show ?thesis by (simp add: enable_all_connections_def)
next
  case (SetConnectionProperties n1 n2 props)
  then show ?thesis by simp
next
  case (SimulateCongestion n1 n2 level)
  then show ?thesis by simp
qed

lemma symmetric_table_upd:
  "symmetric_table m \<Longrightarrow> symmetric_table (m((x, y) \<mapsto> r, (y, x) \<mapsto> r))"
proof -
  assume m: "symmetric_table m"
  have "(m((x, y) \<mapsto> r, (y, x) \<mapsto> r)) (a, b) = (m((x, y) \<mapsto> r, (y, x) \<mapsto> r)) (b, a)"
    for a b
  proof -
    have "m (a, b) = m (b, a)"
      using m unfolding symmetric_table_def by blast
    then show ?thesis
      by (cases "a = x"; cases "b = y"; cases "a = y"; cases "b = x") simp_all
  qed
  then show ?thesis
    unfolding symmetric_table_def by blast
qed

lemma symmetric_table_apply_registry_op:
  assumes "symmetric_table (map_of (connections s))"
  shows "symmetric_table (map_of (connections (apply_registry_op op s)))"
proof -
  from connections_apply_registry_op [of op s]
  consider "map_of (connections (apply_registry_op op s)) = map_of (connections s)"
    | n1 n2 r where "map_of (connections (apply_registry_op op s)) =
         (map_of (connections s))((n1, n2) \<mapsto> r, (n2, n1) \<mapsto> r)"
    by blast
  then show ?thesis
  proof cases
    case 1
    then show ?thesis using assms by (simp only:)
  next
    case 2
    then show ?thesis using symmetric_table_upd [OF assms] by (simp only:)
  qed
qed

lemma symmetric_table_fold_registry:
  "symmetric_table (map_of (connections s)) \<Longrightarrow>
   symmetric_table (map_of (connections (fold apply_registry_op ops s)))"
  by (induction ops arbitrary: s) (simp_all add: symmetric_table_apply_registry_op)

lemma symmetric_table_run_registry:
  "symmetric_table (map_of (connections (run_registry t ops)))"
  unfolding run_registry_def
  by (rule symmetric_table_fold_registry) (simp add: symmetric_table_def IPCManager_init_def)

section \<open>Registry: the two directions of a link\<close>

text \<open>
  C1. After any sequence of registry operations on a fresh registry, the connection table
  has an entry for (A,B) exactly when it has one for (B,A); both entries are the same
  object, so that their enabled, latency and packet_loss fields agree.
\<close>

theorem C1_directions_agree:
  "(map_of (connections (run_registry t ops)) (a, b) = None) =
     (map_of (connections (run_registry t ops)) (b, a) = None)
   \<and> map_of (connections (run_registry t ops)) (a, b) =
     map_of (connections (run_registry t ops)) (b, a)
   \<and> map_option enabled (get_connection_info a b (run_registry t ops)) =
     map_option enabled (get_connection_info b a (run_registry t ops))
   \<and> map_option latency (get_connection_info a b (run_registry t ops)) =
     map_option latency (get_connection_info b a (run_registry t ops))
   \<and> map_option packet_loss (get_connection_info a b (run_registry t ops)) =
     map_option packet_loss (get_connection_info b a (run_registry t ops))"
proof -
  have sym: "map_of (connections (run_registry t ops)) (a, b) =
             map_of (connections (run_registry t ops)) (b, a)"
    using symmetric_table_run_registry [of t ops] by (simp add: symmetric_table_def)
  have key: "(map_of (connections (run_registry t ops)) (a, b) = None) =
             (map_of (connections (run_registry t ops)) (b, a) = None)"
    by (simp only: sym)
  have obj: "get_connection_info a b (run_registry t ops) =
             get_connection_info b a (run_registry t ops)"
    by (simp only: get_connection_info_def sym)
  show ?thesis
    using sym key by (simp only: obj simp_thms)
qed

section \<open>Registry: congestion\<close>

lemma conn_objects_modify_connection:
  "conn_objects (modify_connection f r s) r' =
     (if r' = r then map_option f (conn_objects s r) else conn_objects s r')"
  by (simp add: modify_connection_def split: option.splits)

lemma conn_objects_fold_modify_connection:
  assumes "\<And>c. f (f c) = f c"
  shows "conn_objects (fold (modify_connection f) rs s) r =
     (if r \<in> set rs then map_option f (conn_objects s r) else conn_objects s r)"
proof (induction rs arbitrary: s)
  case Nil
  then show ?case by simp
next
  case (Cons x rs)
  show ?case
    by (simp add: Cons.IH conn_objects_modify_connection assms option.map_comp comp_def)
qed

lemma get_connection_info_fold_modify_connection:
  assumes "\<And>c. f (f c) = f c"
  shows "get_connection_info x y (fold (modify_connection f) (map snd (connections s)) s) =
         map_option f (get_connection_info x y s)"
proof (cases "map_of (connections s) (x, y)")
  case None
  then show ?thesis by (simp add: get_connection_info_def)
next
  case (Some r)
  then have "((x, y), r) \<in> set (connections s)" by (rule map_of_SomeD)
  then have "snd ((x, y), r) \<in> snd ` set (connections s)" by (rule imageI)
  then have "r \<in> set (map snd (connections s))" by simp
  moreover have "conn_objects (fold (modify_connection f) (map snd (connections s)) s) r =
      (if r \<in> set (map snd (connections s)) then map_option f (conn_objects s r)
       else conn_objects s r)"
    by (rule conn_objects_fold_modify_connection) (rule assms)
  ultimately show ?thesis
    using Some by (simp add: get_connection_info_def)
qed

lemma get_connection_info_clear_congestion:
  "get_connection_info x y (clear_congestion s) =
     map_option (\<lambda>c. c\<lparr>latency := 0.001, packet_loss := 0.0\<rparr>) (get_connection_info x y s)"
  unfolding clear_congestion_def
  by (rule get_connection_info_fold_modify_connection) simp

lemma get_connection_info_modify_at:
  "get_connection_info x y (modify_at f k s) =
     (if map_of (connections s) k \<noteq> None \<and> map_of (connections s) k = map_of (connections s) (x, y)
      then map_option f (get_connection_info x y s) else get_connection_info x y s)"
  by (auto simp: get_connection_info_def modify_at_def conn_objects_modify_connection
      split: option.splits)

lemma apply_properties_idem:
  "apply_properties props (apply_properties props c) = apply_properties props c"
  by (simp add: apply_properties_def Let_def split: option.splits)

lemma get_connection_info_set_connection_properties:
  assumes "get_connection_info a b s = Some c"
  shows "get_connection_info a b (set_connection_properties a b props s) =
         Some (apply_properties props c)"
proof -
  from assms obtain r where r: "map_of (connections s) (a, b) = Some r"
    by (auto simp: get_connection_info_def split: option.splits)
  have 1: "get_connection_info a b (modify_at (apply_properties props) (a, b) s) =
           Some (apply_properties props c)"
    using r assms by (simp add: get_connection_info_modify_at)
  show ?thesis
    unfolding set_connection_properties_def
    using 1 by (simp add: get_connection_info_modify_at [where k = "(b, a)"] apply_properties_idem)
qed

lemma get_connection_info_simulate_congestion:
  assumes "get_connection_info a b s = Some c"
  shows "get_connection_info a b (simulate_congestion a b L s) =
         Some (c\<lparr>latency := 0.001 * (1 + 10 * L), packet_loss := min (L * 0.1) 0.5\<rparr>)"
  unfolding simulate_congestion_def Let_def
  by (simp add: get_connection_info_set_connection_properties [OF assms] apply_properties_def
      mult.commute)

section \<open>Registry: sending and dispatching\<close>

lemma put_nowait_unbounded:
  "maxsize q = 0 \<Longrightarrow> put_nowait x q = Some (q\<lparr>items := items q @ [x]\<rparr>)"
  by (simp add: put_nowait_def full_def)

lemma send_message_accept:
  assumes "running s" "maxsize (message_queue s) = 0" "connection_enabled src tgt s"
  shows "\<exists>r. map_of (connections s) (src, tgt) = Some r \<and> conn_objects s r \<noteq> None \<and>
           send_message src tgt msg s =
           (True, bump_sent (s\<lparr>message_queue := (message_queue s)\<lparr>items := items (message_queue s) @
              [\<lparr>source = src, target = tgt, message = msg, connection = r\<rparr>]\<rparr>\<rparr>))"
  using assms
  by (auto simp: send_message_def connection_enabled_def get_connection_info_def Let_def
      put_nowait_unbounded split: option.splits)

lemma send_message_reject:
  assumes "running s" "\<not> connection_enabled src tgt s"
  shows "send_message src tgt msg s = (False, bump_dropped s)"
  using assms
  by (auto simp: send_message_def connection_enabled_def get_connection_info_def Let_def
      split: option.splits)

lemma send_message_stopped:
  "\<not> running s \<Longrightarrow> send_message src tgt msg s = (False, s)"
  by (simp add: send_message_def)

lemma deliver_message_frame:
  "settled_total (deliver_message tgt msg s) = settled_total s + 1
   \<and> sent (message_stats (deliver_message tgt msg s)) = sent (message_stats s)
   \<and> message_queue (deliver_message tgt msg s) = message_queue s
   \<and> conn_objects (deliver_message tgt msg s) = conn_objects s
   \<and> connections (deliver_message tgt msg s) = connections s
   \<and> running (deliver_message tgt msg s) = running s"
  by (simp add: deliver_message_def settled_total_def bump_dropped_def bump_delivered_def
      split: option.splits)

lemma deliver_message_full:
  "target_queue_full tgt s \<Longrightarrow> deliver_message tgt msg s = bump_dropped s"
  by (simp add: target_queue_full_def deliver_message_def put_nowait_def split: option.splits)

text \<open>What one message costs the worker: either the message is counted as dropped or
  delivered, or the worker's exception is logged and no counter moves.\<close>

lemma process_message_cases:
  "(\<exists>e. process_message sleep_raises rnd m s = Inl e)
   \<or> (\<exists>s1. process_message sleep_raises rnd m s = Inr s1
         \<and> settled_total s1 = settled_total s + 1
         \<and> sent (message_stats s1) = sent (message_stats s)
         \<and> message_queue s1 = message_queue s
         \<and> running s1 = running s)"
proof (cases "conn_objects s (connection m)")
  case None
  then show ?thesis by (simp add: process_message_def)
next
  case (Some c)
  show ?thesis
  proof (cases "latency c > 0 \<and> sleep_raises (latency c)")
    case True
    then show ?thesis using Some by (simp add: process_message_def)
  next
    case no_raise: False
    show ?thesis
    proof (cases "packet_loss c > 0 \<and> rnd < packet_loss c")
      case True
      then have "process_message sleep_raises rnd m s = Inr (bump_dropped s)"
        using Some no_raise by (auto simp: process_message_def)
      then show ?thesis
        by (simp add: settled_total_def bump_dropped_def)
    next
      case False
      then have "process_message sleep_raises rnd m s =
                 Inr (deliver_message (target m) (message m) s)"
        using Some no_raise by (auto simp: process_message_def)
      then show ?thesis
        using deliver_message_frame [of "target m" "message m" s] by simp
    qed
  qed
qed

lemma worker_iteration_effect:
  "running (snd (worker_iteration sleep_raises rnd s)) = running s
   \<and> maxsize (message_queue (snd (worker_iteration sleep_raises rnd s))) =
       maxsize (message_queue s)
   \<and> balance (snd (worker_iteration sleep_raises rnd s))
       + int (length (fst (worker_iteration sleep_raises rnd s))) = balance s
   \<and> sent (message_stats (snd (worker_iteration sleep_raises rnd s))) = sent (message_stats s)
   \<and> length (items (message_queue (snd (worker_iteration sleep_raises rnd s)))) =
       length (items (message_queue s)) - 1"
proof (cases "items (message_queue s)")
  case Nil
  then show ?thesis by (simp add: worker_iteration_def)
next
  case (Cons m rest)
  define s0 where "s0 = s\<lparr>message_queue := (message_queue s)\<lparr>items := rest\<rparr>\<rparr>"
  have s0: "running s0 = running s" "maxsize (message_queue s0) = maxsize (message_queue s)"
    "settled_total s0 = settled_total s" "sent (message_stats s0) = sent (message_stats s)"
    "items (message_queue s0) = rest"
    by (simp_all add: s0_def settled_total_def)
  from process_message_cases [of sleep_raises rnd m s0]
  consider e where "process_message sleep_raises rnd m s0 = Inl e"
    | s1 where "process_message sleep_raises rnd m s0 = Inr s1"
        "settled_total s1 = settled_total s0 + 1"
        "sent (message_stats s1) = sent (message_stats s0)"
        "message_queue s1 = message_queue s0" "running s1 = running s0"
    by blast
  then show ?thesis
  proof cases
    case 1
    then have "worker_iteration sleep_raises rnd s = ([e], s0)"
      by (simp add: worker_iteration_def Cons s0_def)
    then show ?thesis
      using s0 Cons by (simp add: balance_def)
  next
    case 2
    then have "worker_iteration sleep_raises rnd s = ([], s1)"
      by (simp add: worker_iteration_def Cons s0_def)
    then show ?thesis
      using s0 2 Cons by (simp add: balance_def)
  qed
qed

lemma node_message_delivery_effect:
  "running (node_message_delivery n s) = running s
   \<and> message_queue (node_message_delivery n s) = message_queue s
   \<and> message_stats (node_message_delivery n s) = message_stats s"
  by (simp add: node_message_delivery_def split: option.splits list.splits)

lemma send_message_effect:
  assumes "running s" "maxsize (message_queue s) = 0"
  shows "running (snd (send_message src tgt msg s))
   \<and> maxsize (message_queue (snd (send_message src tgt msg s))) = 0
   \<and> balance (snd (send_message src tgt msg s)) = balance s + 1
   \<and> sent (message_stats (snd (send_message src tgt msg s))) =
       sent (message_stats s) + (if fst (send_message src tgt msg s) then 1 else 0)
   \<and> length (items (message_queue (snd (send_message src tgt msg s)))) \<le>
       Suc (length (items (message_queue s)))"
proof (cases "connection_enabled src tgt s")
  case False
  then show ?thesis
    using assms
    by (simp add: send_message_reject bump_dropped_def settled_total_def balance_def)
next
  case True
  from send_message_accept [OF assms True, of msg] obtain r where
    "send_message src tgt msg s =
           (True, bump_sent (s\<lparr>message_queue := (message_queue s)\<lparr>items := items (message_queue s) @
              [\<lparr>source = src, target = tgt, message = msg, connection = r\<rparr>]\<rparr>\<rparr>))"
    by blast
  then show ?thesis
    using assms by (simp add: bump_sent_def settled_total_def balance_def)
qed

lemma run_step_effect:
  assumes "running s" "maxsize (message_queue s) = 0"
  shows "running (snd (run_step sleep_raises x s))
   \<and> maxsize (message_queue (snd (run_step sleep_raises x s))) = 0
   \<and> balance (snd (run_step sleep_raises x s))
       + int (length (snd (fst (run_step sleep_raises x s))))
       = balance s + int (length (fst (fst (run_step sleep_raises x s))))
   \<and> sent (message_stats (snd (run_step sleep_raises x s))) =
       sent (message_stats s)
       + int (length (filter (\<lambda>ok. ok) (fst (fst (run_step sleep_raises x s)))))
   \<and> length (items (message_queue (snd (run_step sleep_raises x s)))) \<le>
       Suc (length (items (message_queue s)))"
proof (cases x)
  case (Send src tgt msg)
  obtain ok s1 where sm: "send_message src tgt msg s = (ok, s1)"
    by (cases "send_message src tgt msg s")
  from send_message_effect [OF assms, of src tgt msg] show ?thesis
    by (simp add: Send sm)
next
  case (Work rnd)
  obtain errs s1 where w: "worker_iteration sleep_raises rnd s = (errs, s1)"
    by (cases "worker_iteration sleep_raises rnd s")
  from worker_iteration_effect [of sleep_raises rnd s] show ?thesis
    using assms by (simp add: Work w)
next
  case (Consume n)
  from node_message_delivery_effect [of n s] show ?thesis
    using assms by (simp add: Consume balance_def settled_total_def)
qed

lemma run_steps_effect:
  assumes "running s" "maxsize (message_queue s) = 0"
  shows "running (snd (run_steps sleep_raises xs s))
   \<and> maxsize (message_queue (snd (run_steps sleep_raises xs s))) = 0
   \<and> balance (snd (run_steps sleep_raises xs s))
       + int (length (snd (fst (run_steps sleep_raises xs s))))
       = balance s + int (length (fst (fst (run_steps sleep_raises xs s))))
   \<and> sent (message_stats (snd (run_steps sleep_raises xs s))) =
       sent (message_stats s)
       + int (length (filter (\<lambda>ok. ok) (fst (fst (run_steps sleep_raises xs s)))))
   \<and> length (items (message_queue (snd (run_steps sleep_raises xs s)))) \<le>
       length (items (message_queue s)) + length xs"
  using assms
proof (induction xs arbitrary: s)
  case Nil
  then show ?case by simp
next
  case (Cons x xs)
  obtain oks errs s1 where st: "run_step sleep_raises x s = ((oks, errs), s1)"
    by (cases "run_step sleep_raises x s") auto
  obtain oks' errs' s2 where rest: "run_steps sleep_raises xs s1 = ((oks', errs'), s2)"
    by (cases "run_steps sleep_raises xs s1") auto
  from run_step_effect [OF Cons.prems, of sleep_raises x] st
  have e1: "running s1" "maxsize (message_queue s1) = 0"
    "balance s1 + int (length errs) = balance s + int (length oks)"
    "sent (message_stats s1) = sent (message_stats s) + int (length (filter (\<lambda>ok. ok) oks))"
    "length (items (message_queue s1)) \<le> Suc (length (items (message_queue s)))"
    by simp_all
  from Cons.IH [OF e1(1,2)] rest
  have e2: "running s2" "maxsize (message_queue s2) = 0"
    "balance s2 + int (length errs') = balance s1 + int (length oks')"
    "sent (message_stats s2) = sent (message_stats s1) + int (length (filter (\<lambda>ok. ok) oks'))"
    "length (items (message_queue s2)) \<le> length (items (message_queue s1)) + length xs"
    by simp_all
  have "run_steps sleep_raises (x # xs) s = ((oks @ oks', errs @ errs'), s2)"
    by (simp add: st rest)
  then show ?case
    using e1 e2 by simp
qed

lemma run_steps_append:
  "run_steps sleep_raises (xs @ ys) s =
     (case run_steps sleep_raises xs s of
        ((oks, errs), s1) \<Rightarrow>
          (case run_steps sleep_raises ys s1 of
             ((oks', errs'), s2) \<Rightarrow> ((oks @ oks', errs @ errs'), s2)))"
proof (induction xs arbitrary: s)
  case Nil
  then show ?case by (simp split: prod.splits)
next
  case (Cons x xs)
  then show ?case by (simp split: prod.splits)
qed

lemma worker_drains:
  assumes "running s" "length (items (message_queue s)) \<le> length rnds"
  shows "items (message_queue (snd (run_steps sleep_raises (map Work rnds) s))) = []"
  using assms
proof (induction rnds arbitrary: s)
  case Nil
  then show ?case by simp
next
  case (Cons rnd rnds)
  obtain errs s1 where w: "worker_iteration sleep_raises rnd s = (errs, s1)"
    by (cases "worker_iteration sleep_raises rnd s")
  from worker_iteration_effect [of sleep_raises rnd s] w
  have r1: "running s1"
    and l1: "length (items (message_queue s1)) = length (items (message_queue s)) - 1"
    using Cons.prems(1) by simp_all
  have "length (items (message_queue s1)) \<le> length rnds"
    using l1 Cons.prems(2) by simp
  from Cons.IH [OF r1 this]
  have e: "items (message_queue (snd (run_steps sleep_raises (map Work rnds) s1))) = []" .
  obtain oks' errs' s2 where r: "run_steps sleep_raises (map Work rnds) s1 = ((oks', errs'), s2)"
    by (cases "run_steps sleep_raises (map Work rnds) s1") auto
  show ?case
    using Cons.prems(1) e by (simp add: w r)
qed

lemma worker_iteration_single:
  assumes "items (message_queue s) = [m]"
    and "process_message sleep_raises rnd m (s\<lparr>message_queue := (message_queue s)\<lparr>items := []\<rparr>\<rparr>)
         = Inr s'"
  shows "worker_iteration sleep_raises rnd s = ([], s')"
  using assms by (simp add: worker_iteration_def Let_def)

text \<open>What the worker keeps while it works off the messages ahead of one.\<close>

lemma deliver_message_keeps_full:
  assumes "target_queue_full tgt s"
  shows "target_queue_full tgt (deliver_message t msg s)"
proof (cases "map_of (node_queues s) t")
  case None
  then show ?thesis
    using assms by (simp add: deliver_message_def target_queue_full_def bump_dropped_def)
next
  case (Some q)
  show ?thesis
  proof (cases "full q")
    case True
    then show ?thesis
      using assms Some
      by (simp add: deliver_message_def target_queue_full_def bump_dropped_def put_nowait_def)
  next
    case False
    then have "t \<noteq> tgt"
      using assms Some by (auto simp: target_queue_full_def)
    then show ?thesis
      using assms Some False
      by (simp add: deliver_message_def target_queue_full_def bump_delivered_def put_nowait_def
          update_conv')
  qed
qed

lemma process_message_keeps:
  assumes "process_message sleep_raises rnd m s = Inr s1"
  shows "conn_objects s1 = conn_objects s \<and> message_queue s1 = message_queue s
    \<and> running s1 = running s
    \<and> (target_queue_full tgt s \<longrightarrow> target_queue_full tgt s1)"
proof (cases "conn_objects s (connection m)")
  case None
  then show ?thesis using assms by (simp add: process_message_def)
next
  case (Some c)
  show ?thesis
  proof (cases "latency c > 0 \<and> sleep_raises (latency c)")
    case True
    then show ?thesis using assms Some by (simp add: process_message_def)
  next
    case no_raise: False
    show ?thesis
    proof (cases "packet_loss c > 0 \<and> rnd < packet_loss c")
      case True
      then have "process_message sleep_raises rnd m s = Inr (bump_dropped s)"
        using Some no_raise by (auto simp: process_message_def)
      with assms have "s1 = bump_dropped s" by simp
      then show ?thesis
        by (simp add: bump_dropped_def target_queue_full_def)
    next
      case False
      then have "process_message sleep_raises rnd m s =
                 Inr (deliver_message (target m) (message m) s)"
        using Some no_raise by (auto simp: process_message_def)
      with assms have "s1 = deliver_message (target m) (message m) s" by simp
      then show ?thesis
        using deliver_message_frame [of "target m" "message m" s]
          deliver_message_keeps_full [of tgt s "target m" "message m"]
        by simp
    qed
  qed
qed

lemma worker_iteration_ahead:
  assumes "items (message_queue s) = m # rest"
  shows "items (message_queue (snd (worker_iteration sleep_raises rnd s))) = rest
    \<and> conn_objects (snd (worker_iteration sleep_raises rnd s)) = conn_objects s
    \<and> running (snd (worker_iteration sleep_raises rnd s)) = running s
    \<and> (target_queue_full tgt s \<longrightarrow>
         target_queue_full tgt (snd (worker_iteration sleep_raises rnd s)))"
proof -
  define s0 where "s0 = s\<lparr>message_queue := (message_queue s)\<lparr>items := rest\<rparr>\<rparr>"
  have s0: "running s0 = running s" "conn_objects s0 = conn_objects s"
    "items (message_queue s0) = rest" "target_queue_full tgt s0 = target_queue_full tgt s"
    by (simp_all add: s0_def target_queue_full_def)
  show ?thesis
  proof (cases "process_message sleep_raises rnd m s0")
    case (Inl e)
    then have "worker_iteration sleep_raises rnd s = ([e], s0)"
      by (simp add: worker_iteration_def assms s0_def)
    then show ?thesis using s0 by simp
  next
    case (Inr s1)
    then have "worker_iteration sleep_raises rnd s = ([], s1)"
      by (simp add: worker_iteration_def assms s0_def)
    then show ?thesis
      using s0 process_message_keeps [OF Inr, of tgt] by simp
  qed
qed

lemma worker_works_off:
  assumes "running s" "items (message_queue s) = ahead @ rest" "length rnds = length ahead"
    and "target_queue_full tgt s"
  shows "items (message_queue (snd (run_steps sleep_raises (map Work rnds) s))) = rest
    \<and> conn_objects (snd (run_steps sleep_raises (map Work rnds) s)) = conn_objects s
    \<and> target_queue_full tgt (snd (run_steps sleep_raises (map Work rnds) s))"
  using assms
proof (induction rnds arbitrary: s ahead)
  case Nil
  then show ?case by simp
next
  case (Cons rnd rnds)
  from Cons.prems(3) obtain m ahead' where a: "ahead = m # ahead'" "length rnds = length ahead'"
    by (cases ahead) auto
  obtain errs s1 where w: "worker_iteration sleep_raises rnd s = (errs, s1)"
    by (cases "worker_iteration sleep_raises rnd s")
  have q: "items (message_queue s) = m # (ahead' @ rest)"
    using Cons.prems(2) a(1) by simp
  from worker_iteration_ahead [OF q, of sleep_raises rnd tgt] w Cons.prems(1,4)
  have s1: "items (message_queue s1) = ahead' @ rest" "conn_objects s1 = conn_objects s"
    "running s1" "target_queue_full tgt s1"
    by simp_all
  obtain oks' errs' s2 where r: "run_steps sleep_raises (map Work rnds) s1 = ((oks', errs'), s2)"
    by (cases "run_steps sleep_raises (map Work rnds) s1") auto
  from Cons.IH [OF s1(3) s1(1) a(2) s1(4)] r
  have "items (message_queue s2) = rest" "conn_objects s2 = conn_objects s1"
    "target_queue_full tgt s2"
    by simp_all
  then show ?case
    using Cons.prems(1) s1(2) by (simp add: w r)
qed

lemma worker_drops_on_full:
  assumes "items (message_queue s) = [m]" "conn_objects s (connection m) = Some c"
    and "\<not> (latency c > 0 \<and> sleep_raises (latency c))"
    and "target_queue_full (target m) s"
  shows "worker_iteration sleep_raises rnd s =
           ([], bump_dropped (s\<lparr>message_queue := (message_queue s)\<lparr>items := []\<rparr>\<rparr>))"
proof -
  define s0 where "s0 = s\<lparr>message_queue := (message_queue s)\<lparr>items := []\<rparr>\<rparr>"
  have obj: "conn_objects s0 (connection m) = Some c"
    using assms(2) by (simp add: s0_def)
  have full0: "target_queue_full (target m) s0"
    using assms(4) by (simp add: s0_def target_queue_full_def)
  have pm: "process_message sleep_raises rnd m s0 = Inr (bump_dropped s0)"
  proof (cases "packet_loss c > 0 \<and> rnd < packet_loss c")
    case True
    then show ?thesis
      using obj assms(3) by (auto simp: process_message_def)
  next
    case False
    then have "process_message sleep_raises rnd m s0 =
               Inr (deliver_message (target m) (message m) s0)"
      using obj assms(3) by (auto simp: process_message_def)
    then show ?thesis
      by (simp add: deliver_message_full [OF full0])
  qed
  show ?thesis
    unfolding s0_def [symmetric]
    by (rule worker_iteration_single [OF assms(1)]) (use pm in \<open>simp only: s0_def\<close>)
qed

section \<open>Registry: the example registries evaluated\<close>

lemma linked_AB_eq:
  "linked_AB =
   \<lparr>timeout = 5, connections = [((''A'', ''B''), 0), ((''B'', ''A''), 0)],
    conn_objects = [0 \<mapsto> \<lparr>node1 = ''A'', node2 = ''B'', interface1 = ''eth0'',
       interface2 = ''eth0'', enabled = True, bandwidth = None, latency = 0.001,
       packet_loss = 0\<rparr>],
    next_ref = 1,
    node_queues = [(''A'', Queue 100), (''B'', Queue 100)],
    message_stats = \<lparr>sent = 0, delivered = 0, dropped = 0, queued = 0\<rparr>,
    running = True,
    message_queue = Queue 0\<rparr>"
  by (simp add: linked_AB_def create_connection_def Let_def IPCManager_init_def
      ensure_node_queue_def no_kwargs_def)

lemma linked_AB_fields:
  "running linked_AB" "maxsize (message_queue linked_AB) = 0"
  "items (message_queue linked_AB) = []"
  "sent (message_stats linked_AB) = 0" "delivered (message_stats linked_AB) = 0"
  "dropped (message_stats linked_AB) = 0"
  by (simp_all add: linked_AB_eq Queue_def)

lemma sleep_overflows_millisecond [simp]: "\<not> sleep_overflows (1 / 1000)"
  by (simp add: sleep_overflows_def)

lemma backlog_AB_eq:
  "backlog_AB =
   linked_AB\<lparr>node_queues := [(''A'', Queue 100),
                  (''B'', \<lparr>maxsize = 100, items = replicate 100 ping_msg\<rparr>)],
     message_stats := \<lparr>sent = 100, delivered = 100, dropped = 0, queued = 0\<rparr>\<rparr>"
  unfolding backlog_AB_def linked_AB_eq
  by (simp add: eval_nat_numeral send_message_def Queue_def put_nowait_def full_def
      bump_sent_def worker_iteration_def process_message_def deliver_message_def
      bump_delivered_def)

lemma slow_AB_eq:
  "slow_AB =
   linked_AB\<lparr>conn_objects := [0 \<mapsto> \<lparr>node1 = ''A'', node2 = ''B'', interface1 = ''eth0'',
       interface2 = ''eth0'', enabled = True, bandwidth = None, latency = 10000000000,
       packet_loss = 0\<rparr>]\<rparr>"
  by (simp add: slow_AB_def linked_AB_eq set_connection_properties_def modify_at_def
      modify_connection_def apply_properties_def)

section \<open>Registry: claims about sending\<close>

text \<open>
  C3, as the code has it. \<open>send_message\<close> returns true exactly when the registry is
  running and an enabled connection from source to target exists. It increments the
  dropped counter exactly when the registry is running and there is no such connection.
  On acceptance the message is appended to the worker's queue and the sent counter is
  incremented; in every case the inbound queues of the nodes and the delivered counter
  are left as they were, so nothing is delivered within the call. Whether the target's
  inbound queue is full plays no role in the call. It is found out by the worker: once
  the worker has worked off the messages that were waiting at the call, the iteration
  that takes up the accepted message, for a target whose inbound queue was full at the
  call and with a sleep for the latency of the connection that does not raise, logs no
  error, increments dropped, delivers nothing and leaves the inbound queues alone.
\<close>

theorem C3_send_message_acceptance:
  assumes "maxsize (message_queue s) = 0"
  shows "fst (send_message src tgt msg s) = (running s \<and> connection_enabled src tgt s)
    \<and> dropped (message_stats (snd (send_message src tgt msg s))) =
        dropped (message_stats s) + (if running s \<and> \<not> connection_enabled src tgt s then 1 else 0)
    \<and> sent (message_stats (snd (send_message src tgt msg s))) =
        sent (message_stats s) + (if fst (send_message src tgt msg s) then 1 else 0)
    \<and> (fst (send_message src tgt msg s) \<longrightarrow>
         (\<exists>r. map_of (connections s) (src, tgt) = Some r \<and>
              items (message_queue (snd (send_message src tgt msg s))) =
              items (message_queue s) @
                [\<lparr>source = src, target = tgt, message = msg, connection = r\<rparr>]))
    \<and> (\<not> fst (send_message src tgt msg s) \<longrightarrow>
         message_queue (snd (send_message src tgt msg s)) = message_queue s)
    \<and> node_queues (snd (send_message src tgt msg s)) = node_queues s
    \<and> delivered (message_stats (snd (send_message src tgt msg s))) = delivered (message_stats s)
    \<and> (\<forall>c rnds rnd. fst (send_message src tgt msg s)
          \<and> target_queue_full tgt s \<and> get_connection_info src tgt s = Some c
          \<and> \<not> (latency c > 0 \<and> sleep_raises (latency c))
          \<and> length rnds = length (items (message_queue s)) \<longrightarrow>
        fst (worker_iteration sleep_raises rnd
              (snd (run_steps sleep_raises (map Work rnds) (snd (send_message src tgt msg s))))) = []
        \<and> dropped (message_stats (snd (worker_iteration sleep_raises rnd
              (snd (run_steps sleep_raises (map Work rnds) (snd (send_message src tgt msg s))))))) =
            dropped (message_stats
              (snd (run_steps sleep_raises (map Work rnds) (snd (send_message src tgt msg s))))) + 1
        \<and> delivered (message_stats (snd (worker_iteration sleep_raises rnd
              (snd (run_steps sleep_raises (map Work rnds) (snd (send_message src tgt msg s))))))) =
            delivered (message_stats
              (snd (run_steps sleep_raises (map Work rnds) (snd (send_message src tgt msg s)))))
        \<and> node_queues (snd (worker_iteration sleep_raises rnd
              (snd (run_steps sleep_raises (map Work rnds) (snd (send_message src tgt msg s)))))) =
            node_queues
              (snd (run_steps sleep_raises (map Work rnds) (snd (send_message src tgt msg s))))
        \<and> items (message_queue (snd (worker_iteration sleep_raises rnd
              (snd (run_steps sleep_raises (map Work rnds) (snd (send_message src tgt msg s))))))) = [])"
proof -
  have call: "fst (send_message src tgt msg s) = (running s \<and> connection_enabled src tgt s)
    \<and> dropped (message_stats (snd (send_message src tgt msg s))) =
        dropped (message_stats s) + (if running s \<and> \<not> connection_enabled src tgt s then 1 else 0)
    \<and> sent (message_stats (snd (send_message src tgt msg s))) =
        sent (message_stats s) + (if fst (send_message src tgt msg s) then 1 else 0)
    \<and> (fst (send_message src tgt msg s) \<longrightarrow>
         (\<exists>r. map_of (connections s) (src, tgt) = Some r \<and>
              items (message_queue (snd (send_message src tgt msg s))) =
              items (message_queue s) @
                [\<lparr>source = src, target = tgt, message = msg, connection = r\<rparr>]))
    \<and> (\<not> fst (send_message src tgt msg s) \<longrightarrow>
         message_queue (snd (send_message src tgt msg s)) = message_queue s)
    \<and> node_queues (snd (send_message src tgt msg s)) = node_queues s
    \<and> delivered (message_stats (snd (send_message src tgt msg s))) = delivered (message_stats s)"
  proof (cases "running s")
    case False
    then show ?thesis by (simp add: send_message_stopped)
  next
    case True
    show ?thesis
    proof (cases "connection_enabled src tgt s")
      case False
      with True show ?thesis
        by (simp add: send_message_reject bump_dropped_def)
    next
      case en: True
      from send_message_accept [OF True assms en, of msg] obtain r where
        "map_of (connections s) (src, tgt) = Some r"
        "send_message src tgt msg s =
             (True, bump_sent (s\<lparr>message_queue := (message_queue s)\<lparr>items := items (message_queue s) @
                [\<lparr>source = src, target = tgt, message = msg, connection = r\<rparr>]\<rparr>\<rparr>))"
        by blast
      with True en show ?thesis
        by (simp add: bump_sent_def)
    qed
  qed
  have later: "fst (worker_iteration sleep_raises rnd
              (snd (run_steps sleep_raises (map Work rnds) (snd (send_message src tgt msg s))))) = []
        \<and> dropped (message_stats (snd (worker_iteration sleep_raises rnd
              (snd (run_steps sleep_raises (map Work rnds) (snd (send_message src tgt msg s))))))) =
            dropped (message_stats
              (snd (run_steps sleep_raises (map Work rnds) (snd (send_message src tgt msg s))))) + 1
        \<and> delivered (message_stats (snd (worker_iteration sleep_raises rnd
              (snd (run_steps sleep_raises (map Work rnds) (snd (send_message src tgt msg s))))))) =
            delivered (message_stats
              (snd (run_steps sleep_raises (map Work rnds) (snd (send_message src tgt msg s)))))
        \<and> node_queues (snd (worker_iteration sleep_raises rnd
              (snd (run_steps sleep_raises (map Work rnds) (snd (send_message src tgt msg s)))))) =
            node_queues
              (snd (run_steps sleep_raises (map Work rnds) (snd (send_message src tgt msg s))))
        \<and> items (message_queue (snd (worker_iteration sleep_raises rnd
              (snd (run_steps sleep_raises (map Work rnds) (snd (send_message src tgt msg s))))))) = []"
    if ok: "fst (send_message src tgt msg s)"
      and full: "target_queue_full tgt s" and c: "get_connection_info src tgt s = Some c"
      and quiet: "\<not> (latency c > 0 \<and> sleep_raises (latency c))"
      and len: "length rnds = length (items (message_queue s))"
    for c rnds rnd
  proof -
    from call ok have run: "running s" and en: "connection_enabled src tgt s" by simp_all
    from send_message_accept [OF run assms en, of msg] obtain r where
      r: "map_of (connections s) (src, tgt) = Some r"
      and sm: "send_message src tgt msg s =
             (True, bump_sent (s\<lparr>message_queue := (message_queue s)\<lparr>items := items (message_queue s) @
                [\<lparr>source = src, target = tgt, message = msg, connection = r\<rparr>]\<rparr>\<rparr>))"
      by blast
    have obj: "conn_objects s r = Some c"
      using c r by (simp add: get_connection_info_def)
    define m where "m = \<lparr>source = src, target = tgt, message = msg, connection = r\<rparr>"
    define s1 where "s1 = snd (send_message src tgt msg s)"
    have f1: "running s1" "items (message_queue s1) = items (message_queue s) @ [m]"
      "conn_objects s1 = conn_objects s" "target_queue_full tgt s1"
      using run full by (simp_all add: s1_def sm bump_sent_def m_def target_queue_full_def)
    define s2 where "s2 = snd (run_steps sleep_raises (map Work rnds) s1)"
    from worker_works_off [OF f1(1,2) len f1(4), of sleep_raises]
    have f2: "items (message_queue s2) = [m]" "conn_objects s2 = conn_objects s1"
      "target_queue_full tgt s2"
      by (simp_all add: s2_def)
    have obj2: "conn_objects s2 (connection m) = Some c"
      by (simp add: f2(2) f1(3) m_def obj)
    have full2: "target_queue_full (target m) s2"
      using f2(3) by (simp add: m_def)
    have "worker_iteration sleep_raises rnd s2 =
           ([], bump_dropped (s2\<lparr>message_queue := (message_queue s2)\<lparr>items := []\<rparr>\<rparr>))"
      by (rule worker_drops_on_full [where sleep_raises = sleep_raises, OF f2(1) obj2 quiet full2])
    then show ?thesis
      unfolding s2_def [symmetric] s1_def [symmetric]
      by (simp add: bump_dropped_def)
  qed
  show ?thesis
    using call later by blast
qed

theorem C3_send_message_acceptance_witness:
  "maxsize (message_queue backlog_AB) = 0
   \<and> fst (send_message ''A'' ''B'' ping_msg backlog_AB)
   \<and> target_queue_full ''B'' backlog_AB
   \<and> dropped (message_stats (snd (send_message ''A'' ''B'' ping_msg backlog_AB))) = 0
   \<and> dropped (message_stats (snd (worker_iteration sleep_overflows 0
         (snd (send_message ''A'' ''B'' ping_msg backlog_AB))))) = 1
   \<and> delivered (message_stats (snd (worker_iteration sleep_overflows 0
         (snd (send_message ''A'' ''B'' ping_msg backlog_AB))))) = 100
   \<and> \<not> fst (send_message ''A'' ''C'' ping_msg backlog_AB)
   \<and> dropped (message_stats (snd (send_message ''A'' ''C'' ping_msg backlog_AB))) = 1"
proof -
  have m: "maxsize (message_queue backlog_AB) = 0"
    by (simp add: backlog_AB_eq linked_AB_eq Queue_def)
  have pre: "items (message_queue backlog_AB) = []" "target_queue_full ''B'' backlog_AB"
    "get_connection_info ''A'' ''B'' backlog_AB =
       Some \<lparr>node1 = ''A'', node2 = ''B'', interface1 = ''eth0'',
       interface2 = ''eth0'', enabled = True, bandwidth = None, latency = 0.001,
       packet_loss = 0\<rparr>"
    "running backlog_AB" "connection_enabled ''A'' ''B'' backlog_AB"
    "\<not> connection_enabled ''A'' ''C'' backlog_AB"
    "dropped (message_stats backlog_AB) = 0" "delivered (message_stats backlog_AB) = 100"
    by (simp_all add: backlog_AB_eq linked_AB_eq Queue_def target_queue_full_def full_def
        get_connection_info_def connection_enabled_def)
  note ab = C3_send_message_acceptance [OF m, of "''A''" "''B''" ping_msg sleep_overflows]
  note ac = C3_send_message_acceptance [OF m, of "''A''" "''C''" ping_msg sleep_overflows]
  have ok: "fst (send_message ''A'' ''B'' ping_msg backlog_AB)"
    using ab pre(4,5) by simp
  have d0: "dropped (message_stats (snd (send_message ''A'' ''B'' ping_msg backlog_AB))) = 0"
    using ab pre(4,5,7) by simp
  have dl0: "delivered (message_stats (snd (send_message ''A'' ''B'' ping_msg backlog_AB))) = 100"
    using ab pre(8) by simp
  have quiet: "\<not> (latency \<lparr>node1 = ''A'', node2 = ''B'', interface1 = ''eth0'',
       interface2 = ''eth0'', enabled = True, bandwidth = None, latency = 0.001,
       packet_loss = 0\<rparr> > 0 \<and> sleep_overflows (latency \<lparr>node1 = ''A'', node2 = ''B'',
       interface1 = ''eth0'', interface2 = ''eth0'', enabled = True, bandwidth = None,
       latency = 0.001, packet_loss = 0\<rparr>))"
    by simp
  have len: "length ([] :: real list) = length (items (message_queue backlog_AB))"
    by (simp add: pre(1))
  from ab have "\<forall>c rnds rnd. fst (send_message ''A'' ''B'' ping_msg backlog_AB)
          \<and> target_queue_full ''B'' backlog_AB \<and> get_connection_info ''A'' ''B'' backlog_AB = Some c
          \<and> \<not> (latency c > 0 \<and> sleep_overflows (latency c))
          \<and> length rnds = length (items (message_queue backlog_AB)) \<longrightarrow>
        fst (worker_iteration sleep_overflows rnd
              (snd (run_steps sleep_overflows (map Work rnds) (snd (send_message ''A'' ''B'' ping_msg backlog_AB))))) = []
        \<and> dropped (message_stats (snd (worker_iteration sleep_overflows rnd
              (snd (run_steps sleep_overflows (map Work rnds) (snd (send_message ''A'' ''B'' ping_msg backlog_AB))))))) =
            dropped (message_stats
              (snd (run_steps sleep_overflows (map Work rnds) (snd (send_message ''A'' ''B'' ping_msg backlog_AB))))) + 1
        \<and> delivered (message_stats (snd (worker_iteration sleep_overflows rnd
              (snd (run_steps sleep_overflows (map Work rnds) (snd (send_message ''A'' ''B'' ping_msg backlog_AB))))))) =
            delivered (message_stats
              (snd (run_steps sleep_overflows (map Work rnds) (snd (send_message ''A'' ''B'' ping_msg backlog_AB)))))
        \<and> node_queues (snd (worker_iteration sleep_overflows rnd
              (snd (run_steps sleep_overflows (map Work rnds) (snd (send_message ''A'' ''B'' ping_msg backlog_AB)))))) =
            node_queues
              (snd (run_steps sleep_overflows (map Work rnds) (snd (send_message ''A'' ''B'' ping_msg backlog_AB))))
        \<and> items (message_queue (snd (worker_iteration sleep_overflows rnd
              (snd (run_steps sleep_overflows (map Work rnds) (snd (send_message ''A'' ''B'' ping_msg backlog_AB))))))) = []"
    by (elim conjE)
  from this [rule_format, OF conjI [OF ok conjI [OF pre(2) conjI [OF pre(3) conjI [OF quiet len]]]], of 0]
  have w: "dropped (message_stats (snd (worker_iteration sleep_overflows 0
         (snd (send_message ''A'' ''B'' ping_msg backlog_AB))))) = 1"
    "delivered (message_stats (snd (worker_iteration sleep_overflows 0
         (snd (send_message ''A'' ''B'' ping_msg backlog_AB))))) = 100"
    by (simp_all add: d0 dl0)
  have no: "\<not> fst (send_message ''A'' ''C'' ping_msg backlog_AB)"
    using ac pre(6) by simp
  have d1: "dropped (message_stats (snd (send_message ''A'' ''C'' ping_msg backlog_AB))) = 1"
    using ac pre(4,6,7) by simp
  show ?thesis
    by (intro conjI m ok pre(2) d0 w no d1)
qed

text \<open>
  The claim as stated fails on a full inbound queue: with B's queue at its capacity of
  100, a send from A to B over the enabled link is accepted and the dropped counter
  stays as it was.
\<close>

theorem C3_full_target_queue_counterexample:
  "target_queue_full ''B'' backlog_AB
   \<and> fst (send_message ''A'' ''B'' ping_msg backlog_AB)
   \<and> dropped (message_stats (snd (send_message ''A'' ''B'' ping_msg backlog_AB))) =
       dropped (message_stats backlog_AB)"
  by (simp add: backlog_AB_eq linked_AB_eq target_queue_full_def full_def send_message_def
      Queue_def put_nowait_def bump_sent_def)

text \<open>
  C4, as the code has it. Take a running registry whose counters are zero and whose
  worker queue is empty, any interleaving of \<open>send_message\<close> calls, worker iterations and
  deliveries to nodes, and then worker iterations until nothing waits. Then
  dropped + delivered + the number of messages the worker lost to an exception (each
  logged as an error) = sent + the number of calls that were rejected. So
  dropped + delivered = sent holds exactly when as many calls were rejected as messages
  were lost, in particular when no call is rejected and no message lost.
\<close>

theorem C4_settled_statistics:
  assumes "running s" "maxsize (message_queue s) = 0" "items (message_queue s) = []"
    and "sent (message_stats s) = 0" "delivered (message_stats s) = 0"
      "dropped (message_stats s) = 0"
    and "length steps \<le> length rnds"
  shows "items (message_queue (snd (run_steps sleep_raises (steps @ map Work rnds) s))) = []
    \<and> dropped (message_stats (snd (run_steps sleep_raises (steps @ map Work rnds) s)))
      + delivered (message_stats (snd (run_steps sleep_raises (steps @ map Work rnds) s)))
      + int (length (snd (fst (run_steps sleep_raises (steps @ map Work rnds) s))))
      = sent (message_stats (snd (run_steps sleep_raises (steps @ map Work rnds) s)))
      + int (length (filter Not (fst (fst (run_steps sleep_raises (steps @ map Work rnds) s)))))"
proof -
  obtain oks1 errs1 s1 where r1: "run_steps sleep_raises steps s = ((oks1, errs1), s1)"
    by (cases "run_steps sleep_raises steps s") auto
  obtain oks2 errs2 s2 where r2: "run_steps sleep_raises (map Work rnds) s1 = ((oks2, errs2), s2)"
    by (cases "run_steps sleep_raises (map Work rnds) s1") auto
  have whole: "run_steps sleep_raises (steps @ map Work rnds) s =
               ((oks1 @ oks2, errs1 @ errs2), s2)"
    by (simp add: run_steps_append r1 r2)
  from run_steps_effect [OF assms(1,2), of sleep_raises steps] r1
  have run1: "running s1"
    and pending: "length (items (message_queue s1)) \<le> length (items (message_queue s)) + length steps"
    by simp_all
  have "length (items (message_queue s1)) \<le> length rnds"
    using pending assms(3,7) by simp
  from worker_drains [OF run1 this, of sleep_raises] r2
  have empty: "items (message_queue s2) = []" by simp
  from run_steps_effect [OF assms(1,2), of sleep_raises "steps @ map Work rnds"] whole
  have bal: "balance s2 + int (length (errs1 @ errs2)) = balance s + int (length (oks1 @ oks2))"
    and snt: "sent (message_stats s2) =
              sent (message_stats s) + int (length (filter (\<lambda>ok. ok) (oks1 @ oks2)))"
    by simp_all
  have b0: "balance s = 0"
    using assms(3,5,6) by (simp add: balance_def settled_total_def)
  have b2: "balance s2 = dropped (message_stats s2) + delivered (message_stats s2)"
    using empty by (simp add: balance_def settled_total_def)
  have split: "length (oks1 @ oks2) =
        length (filter (\<lambda>ok. ok) (oks1 @ oks2)) + length (filter Not (oks1 @ oks2))"
    using sum_length_filter_compl [of "\<lambda>ok. ok" "oks1 @ oks2"] by (simp add: comp_def)
  have "dropped (message_stats s2) + delivered (message_stats s2) + int (length (errs1 @ errs2))
        = sent (message_stats s2) + int (length (filter Not (oks1 @ oks2)))"
    using bal snt b0 b2 split assms(4) by linarith
  then show ?thesis
    using empty by (simp add: whole)
qed

theorem C4_settled_statistics_witness:
  "running linked_AB \<and> maxsize (message_queue linked_AB) = 0
   \<and> items (message_queue linked_AB) = []
   \<and> sent (message_stats linked_AB) = 0 \<and> delivered (message_stats linked_AB) = 0
   \<and> dropped (message_stats linked_AB) = 0
   \<and> length [Send ''A'' ''B'' ping_msg, Work 0, Consume ''B'', Send ''A'' ''B'' ping_msg]
       \<le> length [0 :: real, 0, 0, 0]
   \<and> dropped (message_stats (snd (run_steps sleep_overflows
        ([Send ''A'' ''B'' ping_msg, Work 0, Consume ''B'', Send ''A'' ''B'' ping_msg]
         @ map Work [0, 0, 0, 0]) linked_AB)))
     + delivered (message_stats (snd (run_steps sleep_overflows
        ([Send ''A'' ''B'' ping_msg, Work 0, Consume ''B'', Send ''A'' ''B'' ping_msg]
         @ map Work [0, 0, 0, 0]) linked_AB)))
     + int (length (snd (fst (run_steps sleep_overflows
        ([Send ''A'' ''B'' ping_msg, Work 0, Consume ''B'', Send ''A'' ''B'' ping_msg]
         @ map Work [0, 0, 0, 0]) linked_AB))))
     = sent (message_stats (snd (run_steps sleep_overflows
        ([Send ''A'' ''B'' ping_msg, Work 0, Consume ''B'', Send ''A'' ''B'' ping_msg]
         @ map Work [0, 0, 0, 0]) linked_AB)))
     + int (length (filter Not (fst (fst (run_steps sleep_overflows
        ([Send ''A'' ''B'' ping_msg, Work 0, Consume ''B'', Send ''A'' ''B'' ping_msg]
         @ map Work [0, 0, 0, 0]) linked_AB)))))"
proof -
  have len: "length [Send ''A'' ''B'' ping_msg, Work 0, Consume ''B'', Send ''A'' ''B'' ping_msg]
       \<le> length [0 :: real, 0, 0, 0]"
    by simp
  note c4 = C4_settled_statistics [OF linked_AB_fields len, of sleep_overflows]
  from c4 have eq: "dropped (message_stats (snd (run_steps sleep_overflows
        ([Send ''A'' ''B'' ping_msg, Work 0, Consume ''B'', Send ''A'' ''B'' ping_msg]
         @ map Work [0, 0, 0, 0]) linked_AB)))
     + delivered (message_stats (snd (run_steps sleep_overflows
        ([Send ''A'' ''B'' ping_msg, Work 0, Consume ''B'', Send ''A'' ''B'' ping_msg]
         @ map Work [0, 0, 0, 0]) linked_AB)))
     + int (length (snd (fst (run_steps sleep_overflows
        ([Send ''A'' ''B'' ping_msg, Work 0, Consume ''B'', Send ''A'' ''B'' ping_msg]
         @ map Work [0, 0, 0, 0]) linked_AB))))
     = sent (message_stats (snd (run_steps sleep_overflows
        ([Send ''A'' ''B'' ping_msg, Work 0, Consume ''B'', Send ''A'' ''B'' ping_msg]
         @ map Work [0, 0, 0, 0]) linked_AB)))
     + int (length (filter Not (fst (fst (run_steps sleep_overflows
        ([Send ''A'' ''B'' ping_msg, Work 0, Consume ''B'', Send ''A'' ''B'' ping_msg]
         @ map Work [0, 0, 0, 0]) linked_AB)))))"
    by (rule conjunct2)
  show ?thesis
    by (intro conjI linked_AB_fields len eq)
qed

text \<open>
  The claim as stated fails as soon as one call is rejected: A sends once to B (accepted,
  then delivered) and once to C, to which it has no connection (dropped at once). After
  the worker has run, dropped + delivered = 2 and sent = 1.
\<close>

theorem C4_rejected_send_counterexample:
  "items (message_queue (snd (run_steps sleep_overflows
      [Send ''A'' ''B'' ping_msg, Send ''A'' ''C'' ping_msg, Work 0, Work 0] linked_AB))) = []
   \<and> dropped (message_stats (snd (run_steps sleep_overflows
      [Send ''A'' ''B'' ping_msg, Send ''A'' ''C'' ping_msg, Work 0, Work 0] linked_AB)))
     + delivered (message_stats (snd (run_steps sleep_overflows
      [Send ''A'' ''B'' ping_msg, Send ''A'' ''C'' ping_msg, Work 0, Work 0] linked_AB)))
     = 2
   \<and> sent (message_stats (snd (run_steps sleep_overflows
      [Send ''A'' ''B'' ping_msg, Send ''A'' ''C'' ping_msg, Work 0, Work 0] linked_AB))) = 1"
  by (simp add: linked_AB_eq send_message_def Queue_def put_nowait_def full_def bump_sent_def
      bump_dropped_def worker_iteration_def process_message_def deliver_message_def
      bump_delivered_def)

text \<open>A message the worker loses: over a link whose latency is out of the range of
  \<open>time.sleep\<close>, the message is accepted and counted as sent, the worker's sleep raises,
  the error is logged, and the message is counted neither as delivered nor as dropped.\<close>

lemma lost_message_example:
  "run_steps sleep_overflows [Send ''A'' ''B'' ping_msg, Work 0] slow_AB =
     (([True], [OverflowError ''timestamp too large to convert to C _PyTime_t'']),
      slow_AB\<lparr>message_stats := \<lparr>sent = 1, delivered = 0, dropped = 0, queued = 0\<rparr>\<rparr>)"
  by (simp add: slow_AB_eq linked_AB_eq send_message_def Queue_def put_nowait_def full_def
      bump_sent_def worker_iteration_def process_message_def sleep_overflows_def)

section \<open>Registry: claims about congestion\<close>

text \<open>
  C8. For a connection (A,B) and a congestion level L, \<open>simulate_congestion\<close> sets the
  latency of the connection to 0.001 * (1 + 10 * L) and its packet loss to
  min (L * 0.1) 0.5 and leaves its other fields alone; level 1 gives latency 11 * 0.001
  and loss 0.1; \<open>clear_congestion\<close> afterwards sets latency 0.001 and loss 0 on every
  connection of the table. Floats are read as real numbers.
\<close>

theorem C8_congestion:
  assumes "get_connection_info a b s = Some c"
  shows "get_connection_info a b (simulate_congestion a b L s) =
           Some (c\<lparr>latency := 0.001 * (1 + 10 * L), packet_loss := min (L * 0.1) 0.5\<rparr>)
   \<and> get_connection_info a b (simulate_congestion a b 1 s) =
           Some (c\<lparr>latency := 11 * 0.001, packet_loss := 0.1\<rparr>)
   \<and> get_connection_info x y (clear_congestion (simulate_congestion a b L s)) =
           map_option (\<lambda>d. d\<lparr>latency := 0.001, packet_loss := 0.0\<rparr>)
             (get_connection_info x y (simulate_congestion a b L s))"
proof -
  have "get_connection_info a b (simulate_congestion a b 1 s) =
           Some (c\<lparr>latency := 11 * 0.001, packet_loss := 0.1\<rparr>)"
    by (simp add: get_connection_info_simulate_congestion [OF assms])
  then show ?thesis
    by (simp only: get_connection_info_simulate_congestion [OF assms]
        get_connection_info_clear_congestion simp_thms)
qed

theorem C8_congestion_witness:
  "get_connection_info ''A'' ''B'' linked_AB \<noteq> None
   \<and> map_option latency (get_connection_info ''A'' ''B''
        (simulate_congestion ''A'' ''B'' 1 linked_AB)) = Some 0.011
   \<and> map_option packet_loss (get_connection_info ''A'' ''B''
        (simulate_congestion ''A'' ''B'' 1 linked_AB)) = Some 0.1
   \<and> map_option latency (get_connection_info ''B'' ''A''
        (clear_congestion (simulate_congestion ''A'' ''B'' 1 linked_AB))) = Some 0.001
   \<and> map_option packet_loss (get_connection_info ''B'' ''A''
        (clear_congestion (simulate_congestion ''A'' ''B'' 1 linked_AB))) = Some 0"
proof -
  have c: "get_connection_info ''A'' ''B'' linked_AB =
     Some \<lparr>node1 = ''A'', node2 = ''B'', interface1 = ''eth0'',
       interface2 = ''eth0'', enabled = True, bandwidth = None, latency = 0.001,
       packet_loss = 0\<rparr>"
    by (simp add: linked_AB_eq get_connection_info_def)
  have sym: "get_connection_info ''B'' ''A'' (simulate_congestion ''A'' ''B'' 1 linked_AB) =
             get_connection_info ''A'' ''B'' (simulate_congestion ''A'' ''B'' 1 linked_AB)"
    by (simp add: get_connection_info_def linked_AB_eq)
  from C8_congestion [OF c, of 1 "''B''" "''A''"] show ?thesis
    using c by (simp add: sym)
qed

section \<open>Device actor: routes and interfaces\<close>

lemma router_up_eq:
  "router_up =
     \<lparr>device = router_R1, operational = True, powered_on = True, paused = False,
      thread_alive = False, inbox = [], arp_table = [],
      routing_table = [(''10.0.0.0/24'', ''directly_connected'')],
      interface_states = [(''Gi0/0'', True)],
      statistics = \<lparr>packets_sent = 0, packets_received = 0, hello_packets_sent = 0,
        arp_requests_sent = 0, routing_updates = 1, uptime = 0, last_activity = 0\<rparr>\<rparr>"
  by (simp add: router_up_def update_routing_table_def power_on_def NetworkNode_init_def
      router_R1_def Let_def)

lemma routing_table_simulate_interface_down:
  "routing_table (simulate_interface_down interface_name node) = routing_table node"
  by (simp add: simulate_interface_down_def flush_interface_routes_def)













section \<open>Device actor: claims\<close>

text \<open>
  C5. \<open>simulate_interface_down\<close> and \<open>simulate_interface_change\<close> hand the purge of the
  routes of an interface to \<open>_flush_interface_routes\<close>, whose body is empty. On the example
  router, which is up and whose table holds the route to the network of its interface
  Gi0/0, taking Gi0/0 down by either method sets the interface down and leaves that route
  in the table.
\<close>

theorem C5_interface_down_keeps_routes:
  "map_of (interface_states router_up) ''Gi0/0'' = Some True
   \<and> routing_table router_up = [(''10.0.0.0/24'', ''directly_connected'')]
   \<and> map_of (interface_states (simulate_interface_down ''Gi0/0'' router_up)) ''Gi0/0'' = Some False
   \<and> routing_table (simulate_interface_down ''Gi0/0'' router_up) =
       [(''10.0.0.0/24'', ''directly_connected'')]
   \<and> routing_table (fst (simulate_interface_change router_up linked_AB)) =
       [(''10.0.0.0/24'', ''directly_connected'')]
   \<and> map_of (interface_states (fst (simulate_interface_change router_up linked_AB))) ''Gi0/0'' =
       Some False"
  by (simp add: router_up_eq simulate_interface_down_def flush_interface_routes_def
      simulate_interface_change_def router_R1_def Let_def)




section \<open>Orchestrator: fault injection and initialisation\<close>

lemma fold_interfaces_down:
  "fold (\<lambda>interface_name n.
      n\<lparr>interface_states := AList.update interface_name False (interface_states n)\<rparr>) ks node =
   node\<lparr>interface_states := fold (\<lambda>k. AList.update k False) ks (interface_states node)\<rparr>"
  by (induction ks arbitrary: node) simp_all

lemma map_of_fold_update_const:
  "map_of (fold (\<lambda>k. AList.update k v) ks al) i = (if i \<in> set ks then Some v else map_of al i)"
  by (induction ks arbitrary: al) (simp_all add: update_conv')

lemma simulate_device_failure_effect:
  "\<not> operational (simulate_device_failure node)
   \<and> \<not> powered_on (simulate_device_failure node)
   \<and> routing_table (simulate_device_failure node) = []
   \<and> arp_table (simulate_device_failure node) = []
   \<and> map_of (interface_states (simulate_device_failure node)) i =
       map_option (\<lambda>up. False) (map_of (interface_states node) i)"
proof -
  have "(i \<in> fst ` set (interface_states node)) = (map_of (interface_states node) i \<noteq> None)"
    by (simp add: map_of_eq_None_iff)
  then show ?thesis
    by (auto simp: simulate_device_failure_def Let_def fold_interfaces_down
        map_of_fold_update_const)
qed


lemma nodes_log_event [simp]: "nodes (log_event t m d s) = nodes s"
  by (simp add: log_event_def)

lemma ipc_manager_log_event [simp]: "ipc_manager (log_event t m d s) = ipc_manager s"
  by (simp add: log_event_def)

lemma events_log_event [simp]: "events (log_event t m d s) = events s @ [mk_event t m d]"
  by (simp add: log_event_def)

lemma inject_fault_unhandled_kind:
  assumes "fault_type \<noteq> ''link_failure''" "fault_type \<noteq> ''device_failure''"
    "fault_type \<noteq> ''interface_down''"
  shows "inject_fault py_hash now fault_type tgt kwargs s =
           (None, log_event ''fault_injection''
                    (''Injecting '' @ fault_type @ '' fault on '' @ tgt) None s)"
  unfolding inject_fault_def Let_def using assms by (simp only: simp_thms if_False)

lemma inject_fault_unknown_target:
  assumes "map_of (nodes s) tgt = None"
  shows "inject_fault py_hash now fault_type tgt kwargs s =
           (None, log_event ''fault_injection''
                    (''Injecting '' @ fault_type @ '' fault on '' @ tgt) None s)"
  unfolding inject_fault_def Let_def using assms
  by (simp only: nodes_log_event simp_thms if_False)

lemma inject_fault_device_failure:
  assumes "map_of (nodes s) tgt = Some node"
  shows "inject_fault py_hash now ''device_failure'' tgt kwargs s =
      (None, (log_event ''fault_injection'' (''Injecting '' @ ''device_failure'' @ '' fault on '' @ tgt)
                None s)
             \<lparr>nodes := AList.update tgt (simulate_device_failure node) (nodes s)\<rparr>)"
proof -
  have ne: "''device_failure'' \<noteq> ''link_failure''" by simp
  show ?thesis
    unfolding inject_fault_def Let_def using assms ne
    by (simp only: nodes_log_event simp_thms if_False if_True option.simps)
qed

lemma connect_link_frame [simp]:
  "nodes (connect_link link st) = nodes st"
  "events (connect_link link st) = events st"
  "(ipc_manager (connect_link link st) = None) = (ipc_manager st = None)"
  by (simp_all add: connect_link_def)

lemma create_node_frame [simp]:
  "ipc_manager (create_node dev st) = ipc_manager st"
  "events (create_node dev st) = events st"
  "map_of (nodes (create_node dev st)) = (map_of (nodes st))(name dev \<mapsto> NetworkNode_init dev)"
  by (simp_all add: create_node_def update_conv')

lemma ipc_manager_fold_links:
  "(ipc_manager (fold connect_link ls s) = None) = (ipc_manager s = None)"
  by (induction ls arbitrary: s) simp_all

lemma nodes_fold_links: "nodes (fold connect_link ls s) = nodes s"
  by (induction ls arbitrary: s) simp_all

lemma events_fold_links: "events (fold connect_link ls s) = events s"
  by (induction ls arbitrary: s) simp_all

lemma ipc_manager_fold_devices: "ipc_manager (fold create_node devs s) = ipc_manager s"
  by (induction devs arbitrary: s) simp_all

lemma events_fold_devices: "events (fold create_node devs s) = events s"
  by (induction devs arbitrary: s) simp_all

lemma nodes_fold_devices_present:
  "d \<in> set devs \<Longrightarrow> map_of (nodes (fold create_node devs s)) (name d) \<noteq> None"
proof (induction devs arbitrary: s rule: rev_induct)
  case Nil
  then show ?case by simp
next
  case (snoc x xs)
  then show ?case
    by (cases "name d = name x") auto
qed

lemma initialize_simulation_ipc:
  "ipc_manager (initialize_simulation topology devs s) \<noteq> None"
  unfolding initialize_simulation_def Let_def
  by (simp add: ipc_manager_fold_links ipc_manager_fold_devices)

lemma initialize_simulation_events:
  "events (initialize_simulation topology devs s) =
     events s @ [mk_event ''simulation_started'' ''Simulation environment initialized'' None]"
  unfolding initialize_simulation_def Let_def
  by (simp add: events_fold_links events_fold_devices)

lemma initialize_simulation_nodes:
  "nodes (initialize_simulation topology devs s) =
     map (\<lambda>(k, node). (k, node_start node))
       (nodes (fold create_node devs
                 (s\<lparr>ipc_manager := Some (IPCManager_init (ipc_timeout s))\<rparr>)))"
  unfolding initialize_simulation_def Let_def
  by (simp add: nodes_fold_links)

lemma thread_alive_node_start: "thread_alive (node_start node)"
  by (simp add: node_start_def)

lemma initialize_simulation_started:
  assumes "d \<in> set devs"
  shows "\<exists>node. map_of (nodes (initialize_simulation topology devs s)) (name d) = Some node
           \<and> thread_alive node"
proof -
  let ?s2 = "fold create_node devs
             (s\<lparr>ipc_manager := Some (IPCManager_init (ipc_timeout s))\<rparr>)"
  from nodes_fold_devices_present [OF assms] obtain n0 where
    "map_of (nodes ?s2) (name d) = Some n0" by blast
  then have "map_of (nodes (initialize_simulation topology devs s)) (name d) =
             Some (node_start n0)"
    by (simp add: initialize_simulation_nodes map_of_map)
  then show ?thesis
    using thread_alive_node_start by blast
qed

lemma cleanup_simulation_effect:
  "fst (cleanup_simulation s) = map (\<lambda>(k, node). (k, node_stop node)) (nodes s)
   \<and> nodes (snd (cleanup_simulation s)) = [] \<and> events (snd (cleanup_simulation s)) = []
   \<and> \<not> simulation_running (snd (cleanup_simulation s))
   \<and> ipc_manager (snd (cleanup_simulation s)) = map_option cleanup (ipc_manager s)"
  by (simp add: cleanup_simulation_def Let_def)

lemma connect_link_keys:
  assumes "ipc_manager st = Some ipc0"
  shows "\<exists>ipc. ipc_manager (connect_link l st) = Some ipc
           \<and> fst ` set (connections ipc0) \<subseteq> fst ` set (connections ipc)"
  using assms
  by (auto simp: connect_link_def connections_create_connection_list dom_update)

lemma fold_connect_link_keys:
  assumes "ipc_manager st = Some ipc0"
  shows "\<exists>ipc. ipc_manager (fold connect_link ls st) = Some ipc
           \<and> fst ` set (connections ipc0) \<subseteq> fst ` set (connections ipc)"
  using assms
proof (induction ls arbitrary: st ipc0)
  case Nil
  then show ?case by simp
next
  case (Cons x xs)
  from connect_link_keys [OF Cons.prems, of x] obtain ipc1 where
    i1: "ipc_manager (connect_link x st) = Some ipc1"
    and k1: "fst ` set (connections ipc0) \<subseteq> fst ` set (connections ipc1)"
    by blast
  from Cons.IH [OF i1] obtain ipc where
    "ipc_manager (fold connect_link xs (connect_link x st)) = Some ipc"
    "fst ` set (connections ipc1) \<subseteq> fst ` set (connections ipc)"
    by blast
  with k1 show ?case by auto
qed

lemma connect_link_registers:
  assumes "ipc_manager st = Some ipc0"
    and "map_of (nodes st) (source_device l) \<noteq> None"
    and "map_of (nodes st) (target_device l) \<noteq> None"
  shows "\<exists>ipc. ipc_manager (connect_link l st) = Some ipc
           \<and> (source_device l, target_device l) \<in> fst ` set (connections ipc)
           \<and> (target_device l, source_device l) \<in> fst ` set (connections ipc)"
  using assms
  by (auto simp: connect_link_def connections_create_connection_list dom_update)

lemma fold_connect_link_registers:
  assumes "ipc_manager st = Some ipc0" "l \<in> set ls"
    and "map_of (nodes st) (source_device l) \<noteq> None"
    and "map_of (nodes st) (target_device l) \<noteq> None"
  shows "\<exists>ipc. ipc_manager (fold connect_link ls st) = Some ipc
           \<and> (source_device l, target_device l) \<in> fst ` set (connections ipc)
           \<and> (target_device l, source_device l) \<in> fst ` set (connections ipc)"
  using assms
proof (induction ls arbitrary: st ipc0)
  case Nil
  then show ?case by simp
next
  case (Cons x xs)
  show ?case
  proof (cases "l = x")
    case True
    from connect_link_registers [OF Cons.prems(1,3,4)] True obtain ipc1 where
      i1: "ipc_manager (connect_link x st) = Some ipc1"
      and k1: "(source_device l, target_device l) \<in> fst ` set (connections ipc1)"
        "(target_device l, source_device l) \<in> fst ` set (connections ipc1)"
      by blast
    from fold_connect_link_keys [OF i1, of xs] obtain ipc where
      "ipc_manager (fold connect_link xs (connect_link x st)) = Some ipc"
      "fst ` set (connections ipc1) \<subseteq> fst ` set (connections ipc)"
      by blast
    with k1 show ?thesis by auto
  next
    case False
    then have mem: "l \<in> set xs" using Cons.prems(2) by simp
    from connect_link_keys [OF Cons.prems(1), of x] obtain ipc1 where
      i1: "ipc_manager (connect_link x st) = Some ipc1"
      by blast
    have n1: "map_of (nodes (connect_link x st)) (source_device l) \<noteq> None"
      "map_of (nodes (connect_link x st)) (target_device l) \<noteq> None"
      using Cons.prems(3,4) by simp_all
    from Cons.IH [OF i1 mem n1] show ?thesis by simp
  qed
qed

lemma initialize_simulation_links:
  assumes "l \<in> set (links topology)"
    and "source_device l \<in> name ` set devs" "target_device l \<in> name ` set devs"
  shows "\<exists>ipc. ipc_manager (initialize_simulation topology devs s) = Some ipc
           \<and> (source_device l, target_device l) \<in> fst ` set (connections ipc)
           \<and> (target_device l, source_device l) \<in> fst ` set (connections ipc)"
proof -
  define s2 where "s2 = fold create_node devs
             (s\<lparr>ipc_manager := Some (IPCManager_init (ipc_timeout s))\<rparr>)"
  have i2: "ipc_manager s2 = Some (IPCManager_init (ipc_timeout s))"
    by (simp add: s2_def ipc_manager_fold_devices)
  from assms(2) obtain d1 where d1: "d1 \<in> set devs" "source_device l = name d1" by auto
  from assms(3) obtain d2 where d2: "d2 \<in> set devs" "target_device l = name d2" by auto
  have n2: "map_of (nodes s2) (source_device l) \<noteq> None"
    "map_of (nodes s2) (target_device l) \<noteq> None"
    unfolding s2_def d1(2) d2(2)
    by (rule nodes_fold_devices_present [OF d1(1)], rule nodes_fold_devices_present [OF d2(1)])
  have "ipc_manager (initialize_simulation topology devs s) =
        ipc_manager (fold connect_link (links topology) s2)"
    unfolding initialize_simulation_def Let_def s2_def by simp
  with fold_connect_link_registers [OF i2 assms(1) n2] show ?thesis
    by simp
qed

lemma node_stop_effect:
  "\<not> thread_alive (node_stop node) \<and> \<not> operational (node_stop node)
   \<and> \<not> powered_on (node_stop node)"
  by (simp add: node_stop_def)

lemma map_of_node_stop:
  "map_of (map (\<lambda>(k, node). (k, node_stop node)) ns) k = map_option node_stop (map_of ns k)"
  by (induction ns) auto

lemma update_fresh_key:
  "k \<notin> fst ` set al \<Longrightarrow> AList.update k v al = al @ [(k, v)]"
  by (induction al) auto

lemma nodes_fold_create_node:
  assumes "distinct (map name devs)" "\<forall>d \<in> set devs. name d \<notin> fst ` set (nodes s)"
  shows "nodes (fold create_node devs s) = nodes s @ map (\<lambda>d. (name d, NetworkNode_init d)) devs"
  using assms
proof (induction devs arbitrary: s)
  case Nil
  then show ?case by simp
next
  case (Cons d devs)
  have fresh: "name d \<notin> fst ` set (nodes s)" using Cons.prems(2) by simp
  have n1: "nodes (create_node d s) = nodes s @ [(name d, NetworkNode_init d)]"
    using fresh by (simp add: create_node_def update_fresh_key)
  have "name d' \<notin> fst ` set (nodes (create_node d s))" if "d' \<in> set devs" for d'
  proof -
    have "name d \<notin> set (map name devs)" using Cons.prems(1) by simp
    moreover have "name d' \<in> set (map name devs)" using that by simp
    ultimately have "name d' \<noteq> name d" by metis
    moreover have "name d' \<notin> fst ` set (nodes s)" using Cons.prems(2) that by simp
    ultimately show ?thesis by (simp add: n1)
  qed
  then have "\<forall>d' \<in> set devs. name d' \<notin> fst ` set (nodes (create_node d s))"
    by blast
  moreover have "distinct (map name devs)" using Cons.prems(1) by simp
  ultimately show ?case
    using Cons.IH [of "create_node d s"] by (simp add: n1)
qed

lemma initialize_simulation_node_list:
  assumes "distinct (map name devs)" "nodes s = []"
  shows "nodes (initialize_simulation topology devs s) =
           map (\<lambda>d. (name d, node_start (NetworkNode_init d))) devs"
  using nodes_fold_create_node [OF assms(1), of "s\<lparr>ipc_manager := Some (IPCManager_init (ipc_timeout s))\<rparr>"]
  by (simp add: initialize_simulation_nodes assms(2) comp_def)


lemma example_names [simp]:
  "name router_R1 = ''R1''" "name switch_SW1 = ''SW1''" "name pc_PC1 = ''PC1''"
  by (simp_all add: router_R1_def switch_SW1_def pc_PC1_def)

lemma example_types [simp]:
  "device_type router_R1 = ''router''" "device_type switch_SW1 = ''switch''"
  "device_type pc_PC1 = ''pc''"
  by (simp_all add: router_R1_def switch_SW1_def pc_PC1_def)

lemma triangle_devices [simp]: "devices triangle = [router_R1, switch_SW1, pc_PC1]"
  by (simp add: triangle_def)

lemma sim0_fields [simp]:
  "nodes sim0 = []" "events sim0 = []" "ipc_manager sim0 = None" "ipc_timeout sim0 = None"
  by (simp_all add: sim0_def NetworkSimulator_init_def)

lemma triangle_nodes:
  "nodes (initialize_simulation triangle (devices triangle) sim0) =
     [(''R1'', node_start (NetworkNode_init router_R1)),
      (''SW1'', node_start (NetworkNode_init switch_SW1)),
      (''PC1'', node_start (NetworkNode_init pc_PC1))]"
  by (simp add: initialize_simulation_node_list)

lemma connections_connect_link:
  "map_of (nodes st) (source_device link) \<noteq> None \<Longrightarrow>
   map_of (nodes st) (target_device link) \<noteq> None \<Longrightarrow> ipc_manager st = Some ipc \<Longrightarrow>
   ipc_manager (connect_link link st) =
     Some (create_connection (source_device link) (target_device link)
             (source_interface link) (target_interface link) no_kwargs ipc)"
  by (simp add: connect_link_def)

lemma triangle_registry:
  "map_option (\<lambda>ipc. map fst (connections ipc))
     (ipc_manager (initialize_simulation triangle (devices triangle) sim0)) =
   Some [(''R1'', ''SW1''), (''SW1'', ''R1''), (''R1'', ''PC1''), (''PC1'', ''R1''),
         (''SW1'', ''PC1''), (''PC1'', ''SW1'')]"
proof -
  define s2 where "s2 = fold create_node (devices triangle)
     (sim0\<lparr>ipc_manager := Some (IPCManager_init (ipc_timeout sim0))\<rparr>)"
  have n2: "nodes s2 = [(''R1'', NetworkNode_init router_R1),
      (''SW1'', NetworkNode_init switch_SW1), (''PC1'', NetworkNode_init pc_PC1)]"
  proof -
    have "nodes (fold create_node [router_R1, switch_SW1, pc_PC1]
             (sim0\<lparr>ipc_manager := Some (IPCManager_init (ipc_timeout sim0))\<rparr>)) =
          nodes (sim0\<lparr>ipc_manager := Some (IPCManager_init (ipc_timeout sim0))\<rparr>) @
          map (\<lambda>d. (name d, NetworkNode_init d)) [router_R1, switch_SW1, pc_PC1]"
      by (rule nodes_fold_create_node) simp_all
    then show ?thesis
      unfolding s2_def triangle_devices by simp
  qed
  have i2: "ipc_manager s2 = Some (IPCManager_init None)"
    unfolding s2_def by (simp add: ipc_manager_fold_devices)
  have init: "ipc_manager (initialize_simulation triangle (devices triangle) sim0) =
        ipc_manager (fold connect_link (links triangle) s2)"
    unfolding initialize_simulation_def Let_def s2_def by simp
  have "map_option (\<lambda>ipc. map fst (connections ipc))
          (ipc_manager (fold connect_link (links triangle) s2)) =
     Some [(''R1'', ''SW1''), (''SW1'', ''R1''), (''R1'', ''PC1''), (''PC1'', ''R1''),
         (''SW1'', ''PC1''), (''PC1'', ''SW1'')]"
    by (simp add: triangle_def connect_link_def n2 i2 connections_create_connection_list
        IPCManager_init_def)
  then show ?thesis
    by (simp only: init)
qed


lemma two_nodes_eq:
  "nodes two_nodes = [(''R1'', router_up), (''SW1'', power_on (NetworkNode_init switch_SW1))]
   \<and> ipc_manager two_nodes = Some linked_AB \<and> events two_nodes = []"
  by (simp add: two_nodes_def sim0_def NetworkSimulator_init_def)

section \<open>Orchestrator: claims\<close>

text \<open>
  C7. A \<open>device_failure\<close> fault on a registered device raises nothing and leaves that
  device not operational, with empty routing and ARP tables and every interface it had
  down; every other device is the same object state as before, the set of devices is the
  same, and the registry is untouched.
\<close>

theorem C7_device_failure:
  assumes "map_of (nodes s) tgt = Some node"
  shows "fst (inject_fault py_hash now ''device_failure'' tgt kwargs s) = None
    \<and> (\<exists>failed. map_of (nodes (snd (inject_fault py_hash now ''device_failure'' tgt kwargs s))) tgt
           = Some failed
         \<and> \<not> operational failed \<and> routing_table failed = [] \<and> arp_table failed = []
         \<and> (\<forall>i. map_of (interface_states failed) i =
                  map_option (\<lambda>up. False) (map_of (interface_states node) i)))
    \<and> (\<forall>other. other \<noteq> tgt \<longrightarrow>
          map_of (nodes (snd (inject_fault py_hash now ''device_failure'' tgt kwargs s))) other =
          map_of (nodes s) other)
    \<and> map fst (nodes (snd (inject_fault py_hash now ''device_failure'' tgt kwargs s))) =
        map fst (nodes s)
    \<and> ipc_manager (snd (inject_fault py_hash now ''device_failure'' tgt kwargs s)) = ipc_manager s"
proof -
  have key: "tgt \<in> fst ` set (nodes s)"
    using assms by (metis map_of_eq_None_iff option.distinct(1))
  have ns: "nodes (snd (inject_fault py_hash now ''device_failure'' tgt kwargs s)) =
            AList.update tgt (simulate_device_failure node) (nodes s)"
    and ipc: "ipc_manager (snd (inject_fault py_hash now ''device_failure'' tgt kwargs s)) =
            ipc_manager s"
    and ok: "fst (inject_fault py_hash now ''device_failure'' tgt kwargs s) = None"
    by (simp_all add: inject_fault_device_failure [OF assms])
  have tgt: "map_of (AList.update tgt (simulate_device_failure node) (nodes s)) tgt =
             Some (simulate_device_failure node)"
    by (simp add: update_conv')
  have others: "map_of (AList.update tgt (simulate_device_failure node) (nodes s)) other =
                map_of (nodes s) other" if "other \<noteq> tgt" for other
    using that by (simp add: update_conv')
  have keys: "map fst (AList.update tgt (simulate_device_failure node) (nodes s)) = map fst (nodes s)"
    using key by (simp add: update_keys)
  show ?thesis
    unfolding ns ipc ok tgt keys
    using simulate_device_failure_effect [of node] others by blast
qed


theorem C7_device_failure_witness:
  "map_of (nodes two_nodes) ''R1'' = Some router_up
   \<and> fst (inject_fault (\<lambda>_. 0) 0 ''device_failure'' ''R1''
            \<lparr>fk_neighbor = None, fk_interface = None\<rparr> two_nodes) = None
   \<and> map_of (nodes (snd (inject_fault (\<lambda>_. 0) 0 ''device_failure'' ''R1''
            \<lparr>fk_neighbor = None, fk_interface = None\<rparr> two_nodes))) ''SW1'' =
       map_of (nodes two_nodes) ''SW1''
   \<and> ipc_manager (snd (inject_fault (\<lambda>_. 0) 0 ''device_failure'' ''R1''
            \<lparr>fk_neighbor = None, fk_interface = None\<rparr> two_nodes)) = ipc_manager two_nodes"
proof -
  have r1: "map_of (nodes two_nodes) ''R1'' = Some router_up"
    by (simp add: two_nodes_eq)
  have ne: "''SW1'' \<noteq> ''R1''" by simp
  note c7 = C7_device_failure [OF r1, of "\<lambda>_. 0" 0 "\<lparr>fk_neighbor = None, fk_interface = None\<rparr>"]
  from c7 have a: "fst (inject_fault (\<lambda>_. 0) 0 ''device_failure'' ''R1''
            \<lparr>fk_neighbor = None, fk_interface = None\<rparr> two_nodes) = None"
    by (rule conjunct1)
  from c7 have o: "\<forall>other. other \<noteq> ''R1'' \<longrightarrow>
          map_of (nodes (snd (inject_fault (\<lambda>_. 0) 0 ''device_failure'' ''R1''
            \<lparr>fk_neighbor = None, fk_interface = None\<rparr> two_nodes))) other =
          map_of (nodes two_nodes) other"
    by (elim conjE)
  from c7 have i: "ipc_manager (snd (inject_fault (\<lambda>_. 0) 0 ''device_failure'' ''R1''
            \<lparr>fk_neighbor = None, fk_interface = None\<rparr> two_nodes)) = ipc_manager two_nodes"
    by (elim conjE)
  from r1 a o [rule_format, OF ne] i show ?thesis
    by (intro conjI)
qed

text \<open>
  C10. For a fault kind that is none of \<open>link_failure\<close>, \<open>device_failure\<close>,
  \<open>interface_down\<close>, and for a target that is not a registered node, \<open>inject_fault\<close>
  raises nothing, appends exactly one event, of type \<open>fault_injection\<close>, and changes
  nothing else: the nodes and the registry are as before.
\<close>

theorem C10_unhandled_fault:
  assumes "fault_type \<notin> {''link_failure'', ''device_failure'', ''interface_down''}
           \<or> map_of (nodes s) tgt = None"
  shows "inject_fault py_hash now fault_type tgt kwargs s =
           (None, s\<lparr>events := events s @
              [mk_event ''fault_injection'' (''Injecting '' @ fault_type @ '' fault on '' @ tgt) None]\<rparr>)
    \<and> fst (inject_fault py_hash now fault_type tgt kwargs s) = None
    \<and> length (events (snd (inject_fault py_hash now fault_type tgt kwargs s))) =
        Suc (length (events s))
    \<and> ev_type (last (events (snd (inject_fault py_hash now fault_type tgt kwargs s)))) =
        ''fault_injection''
    \<and> nodes (snd (inject_fault py_hash now fault_type tgt kwargs s)) = nodes s
    \<and> ipc_manager (snd (inject_fault py_hash now fault_type tgt kwargs s)) = ipc_manager s"
proof -
  have run: "inject_fault py_hash now fault_type tgt kwargs s =
           (None, log_event ''fault_injection''
                    (''Injecting '' @ fault_type @ '' fault on '' @ tgt) None s)"
    using assms
  proof
    assume "fault_type \<notin> {''link_failure'', ''device_failure'', ''interface_down''}"
    then have "fault_type \<noteq> ''link_failure''" "fault_type \<noteq> ''device_failure''"
      "fault_type \<noteq> ''interface_down''"
      by blast+
    then show ?thesis by (rule inject_fault_unhandled_kind)
  next
    assume "map_of (nodes s) tgt = None"
    then show ?thesis by (rule inject_fault_unknown_target)
  qed
  have ev: "ev_type (mk_event ''fault_injection'' m d) = ''fault_injection''" for m d
    by (simp add: mk_event_def)
  show ?thesis
    unfolding run by (simp add: ev) (simp add: log_event_def)
qed

theorem C10_unhandled_fault_witness:
  "''cosmic_ray'' \<notin> {''link_failure'', ''device_failure'', ''interface_down''}
   \<and> map_of (nodes two_nodes) ''R9'' = None
   \<and> inject_fault (\<lambda>_. 0) 0 ''cosmic_ray'' ''R1''
         \<lparr>fk_neighbor = None, fk_interface = None\<rparr> two_nodes =
       (None, two_nodes\<lparr>events :=
          [mk_event ''fault_injection'' ''Injecting cosmic_ray fault on R1'' None]\<rparr>)
   \<and> inject_fault (\<lambda>_. 0) 0 ''device_failure'' ''R9''
         \<lparr>fk_neighbor = None, fk_interface = None\<rparr> two_nodes =
       (None, two_nodes\<lparr>events :=
          [mk_event ''fault_injection'' ''Injecting device_failure fault on R9'' None]\<rparr>)"
proof -
  have k: "''cosmic_ray'' \<notin> {''link_failure'', ''device_failure'', ''interface_down''}"
    by simp
  have t: "map_of (nodes two_nodes) ''R9'' = None"
    by (simp add: two_nodes_eq)
  from C10_unhandled_fault [of "''cosmic_ray''" two_nodes "''R1''" "\<lambda>_. 0" 0
      "\<lparr>fk_neighbor = None, fk_interface = None\<rparr>"] k
    C10_unhandled_fault [of "''device_failure''" two_nodes "''R9''" "\<lambda>_. 0" 0
      "\<lparr>fk_neighbor = None, fk_interface = None\<rparr>"] t
  show ?thesis
    by (simp add: two_nodes_eq)
qed

text \<open>
  C2, as the code has it. With a scenario name other than \<open>day1\<close> and \<open>day2\<close>,
  \<open>run_simulation\<close> raises \<open>ValueError\<close>. The error leaves the \<open>try\<close> block after
  \<open>_initialize_simulation\<close> and before any scenario phase: by then the registry exists,
  every device has a started node, every link of the topology between two of the
  devices is registered in both directions, and \<open>simulation_started\<close> is logged. The
  \<open>finally\<close> clause then stops every node (thread ended, not operational, powered off),
  empties the node table and the event log, and stops and empties the registry: its
  connections, its node queues and the dispatcher's queue.
\<close>

theorem C2_unknown_scenario:
  assumes "scen \<noteq> ''day1''" "scen \<noteq> ''day2''"
  shows "fst (run_simulation env topology devs scen s) =
           Inl (ValueError (''Unknown scenario: '' @ scen))
    \<and> run_body env topology devs scen s =
        (Inl (ValueError (''Unknown scenario: '' @ scen)), initialize_simulation topology devs s)
    \<and> events (snd (run_body env topology devs scen s)) =
        events s @ [mk_event ''simulation_started'' ''Simulation environment initialized'' None]
    \<and> (\<forall>d \<in> set devs. \<exists>node.
          map_of (nodes (snd (run_body env topology devs scen s))) (name d) = Some node
          \<and> thread_alive node)
    \<and> (\<forall>l \<in> set (links topology).
          source_device l \<in> name ` set devs \<and> target_device l \<in> name ` set devs \<longrightarrow>
          (\<exists>ipc. ipc_manager (snd (run_body env topology devs scen s)) = Some ipc
             \<and> (source_device l, target_device l) \<in> fst ` set (connections ipc)
             \<and> (target_device l, source_device l) \<in> fst ` set (connections ipc)))
    \<and> map fst (fst (snd (run_simulation env topology devs scen s))) =
        map fst (nodes (snd (run_body env topology devs scen s)))
    \<and> (\<forall>d \<in> set devs. \<exists>node.
          map_of (fst (snd (run_simulation env topology devs scen s))) (name d) = Some node
          \<and> \<not> thread_alive node \<and> \<not> operational node \<and> \<not> powered_on node)
    \<and> nodes (snd (snd (run_simulation env topology devs scen s))) = []
    \<and> events (snd (snd (run_simulation env topology devs scen s))) = []
    \<and> \<not> simulation_running (snd (snd (run_simulation env topology devs scen s)))
    \<and> (\<exists>ipc. ipc_manager (snd (snd (run_simulation env topology devs scen s))) = Some ipc
          \<and> \<not> running ipc \<and> connections ipc = [] \<and> node_queues ipc = []
          \<and> items (message_queue ipc) = [])"
proof -
  define s1 where "s1 = initialize_simulation topology devs s"
  have body: "run_body env topology devs scen s =
        (Inl (ValueError (''Unknown scenario: '' @ scen)), s1)"
    unfolding run_body_def Let_def s1_def using assms by (simp only: if_False)
  have sim: "run_simulation env topology devs scen s =
        (Inl (ValueError (''Unknown scenario: '' @ scen)), cleanup_simulation s1)"
    unfolding run_simulation_def body by simp
  obtain ipc0 where ipc0: "ipc_manager s1 = Some ipc0"
    using initialize_simulation_ipc [of topology devs s] unfolding s1_def by blast
  have ev: "events s1 =
        events s @ [mk_event ''simulation_started'' ''Simulation environment initialized'' None]"
    unfolding s1_def by (rule initialize_simulation_events)
  have started: "\<forall>d \<in> set devs. \<exists>node.
          map_of (nodes s1) (name d) = Some node \<and> thread_alive node"
  proof
    fix d assume "d \<in> set devs"
    then show "\<exists>node. map_of (nodes s1) (name d) = Some node \<and> thread_alive node"
      unfolding s1_def by (rule initialize_simulation_started)
  qed
  have linked: "\<forall>l \<in> set (links topology).
          source_device l \<in> name ` set devs \<and> target_device l \<in> name ` set devs \<longrightarrow>
          (\<exists>ipc. ipc_manager s1 = Some ipc
             \<and> (source_device l, target_device l) \<in> fst ` set (connections ipc)
             \<and> (target_device l, source_device l) \<in> fst ` set (connections ipc))"
  proof (intro ballI impI)
    fix l
    assume l: "l \<in> set (links topology)"
      and ends: "source_device l \<in> name ` set devs \<and> target_device l \<in> name ` set devs"
    show "\<exists>ipc. ipc_manager s1 = Some ipc
             \<and> (source_device l, target_device l) \<in> fst ` set (connections ipc)
             \<and> (target_device l, source_device l) \<in> fst ` set (connections ipc)"
      unfolding s1_def
      by (rule initialize_simulation_links [OF l conjunct1 [OF ends] conjunct2 [OF ends]])
  qed
  have retired: "fst (cleanup_simulation s1) = map (\<lambda>(k, node). (k, node_stop node)) (nodes s1)"
    by (simp add: cleanup_simulation_effect)
  have keys: "map fst (fst (cleanup_simulation s1)) = map fst (nodes s1)"
    unfolding retired by (simp add: comp_def case_prod_beta)
  have stopped: "\<forall>d \<in> set devs. \<exists>node.
          map_of (fst (cleanup_simulation s1)) (name d) = Some node
          \<and> \<not> thread_alive node \<and> \<not> operational node \<and> \<not> powered_on node"
  proof
    fix d assume "d \<in> set devs"
    with started obtain n0 where "map_of (nodes s1) (name d) = Some n0" by blast
    then have "map_of (fst (cleanup_simulation s1)) (name d) = Some (node_stop n0)"
      by (simp add: retired map_of_node_stop)
    then show "\<exists>node. map_of (fst (cleanup_simulation s1)) (name d) = Some node
          \<and> \<not> thread_alive node \<and> \<not> operational node \<and> \<not> powered_on node"
      using node_stop_effect [of n0] by simp
  qed
  have final: "nodes (snd (cleanup_simulation s1)) = []"
    "events (snd (cleanup_simulation s1)) = []"
    "\<not> simulation_running (snd (cleanup_simulation s1))"
    by (simp_all add: cleanup_simulation_effect)
  have reg: "\<exists>ipc. ipc_manager (snd (cleanup_simulation s1)) = Some ipc
          \<and> \<not> running ipc \<and> connections ipc = [] \<and> node_queues ipc = []
          \<and> items (message_queue ipc) = []"
    by (simp add: cleanup_simulation_effect ipc0 cleanup_def stop_def)
  have same: "(Inl (ValueError (''Unknown scenario: '' @ scen)) :: error + SimulationResult, s1) =
        (Inl (ValueError (''Unknown scenario: '' @ scen)), initialize_simulation topology devs s)"
    by (simp only: s1_def)
  show ?thesis
    unfolding sim body fst_conv snd_conv
    by (intro conjI refl same ev started linked keys stopped final reg)
qed

theorem C2_unknown_scenario_witness:
  "''day3'' \<noteq> ''day1'' \<and> ''day3'' \<noteq> ''day2''
   \<and> fst (run_simulation env0 triangle (devices triangle) ''day3'' sim0) =
       Inl (ValueError ''Unknown scenario: day3'')
   \<and> nodes (snd (snd (run_simulation env0 triangle (devices triangle) ''day3'' sim0))) = []
   \<and> (\<exists>node. map_of (fst (snd (run_simulation env0 triangle (devices triangle) ''day3'' sim0)))
          ''R1'' = Some node
        \<and> \<not> thread_alive node \<and> \<not> operational node \<and> \<not> powered_on node)
   \<and> (\<exists>ipc. ipc_manager (snd (run_body env0 triangle (devices triangle) ''day3'' sim0)) = Some ipc
        \<and> (''SW1'', ''PC1'') \<in> fst ` set (connections ipc)
        \<and> (''PC1'', ''SW1'') \<in> fst ` set (connections ipc))"
proof -
  have ne: "''day3'' \<noteq> ''day1''" "''day3'' \<noteq> ''day2''" by simp_all
  note c2 = C2_unknown_scenario [OF ne, of env0 triangle "devices triangle" sim0]
  have out: "fst (run_simulation env0 triangle (devices triangle) ''day3'' sim0) =
       Inl (ValueError ''Unknown scenario: day3'')"
    using c2 by simp
  have empty: "nodes (snd (snd (run_simulation env0 triangle (devices triangle) ''day3'' sim0))) = []"
    using c2 by (elim conjE)
  have all_stopped: "\<forall>d \<in> set (devices triangle). \<exists>node.
          map_of (fst (snd (run_simulation env0 triangle (devices triangle) ''day3'' sim0)))
            (name d) = Some node
          \<and> \<not> thread_alive node \<and> \<not> operational node \<and> \<not> powered_on node"
    using c2 by (elim conjE)
  have r1: "router_R1 \<in> set (devices triangle)" by simp
  have stopped: "\<exists>node. map_of (fst (snd (run_simulation env0 triangle (devices triangle) ''day3'' sim0)))
          ''R1'' = Some node
        \<and> \<not> thread_alive node \<and> \<not> operational node \<and> \<not> powered_on node"
    using bspec [OF all_stopped r1] by (simp only: example_names)
  have all_linked: "\<forall>l \<in> set (links triangle).
          source_device l \<in> name ` set (devices triangle)
          \<and> target_device l \<in> name ` set (devices triangle) \<longrightarrow>
          (\<exists>ipc. ipc_manager (snd (run_body env0 triangle (devices triangle) ''day3'' sim0)) = Some ipc
             \<and> (source_device l, target_device l) \<in> fst ` set (connections ipc)
             \<and> (target_device l, source_device l) \<in> fst ` set (connections ipc))"
    using c2 by (elim conjE)
  have l3: "\<lparr>source_device = ''SW1'', target_device = ''PC1'',
          source_interface = ''Fa0/2'', target_interface = ''eth1''\<rparr> \<in> set (links triangle)"
    by (simp add: triangle_def)
  have ends: "source_device \<lparr>source_device = ''SW1'', target_device = ''PC1'',
          source_interface = ''Fa0/2'', target_interface = ''eth1''\<rparr>
            \<in> name ` set (devices triangle)
      \<and> target_device \<lparr>source_device = ''SW1'', target_device = ''PC1'',
          source_interface = ''Fa0/2'', target_interface = ''eth1''\<rparr>
            \<in> name ` set (devices triangle)"
    by simp
  have linked: "\<exists>ipc. ipc_manager (snd (run_body env0 triangle (devices triangle) ''day3'' sim0)) = Some ipc
        \<and> (''SW1'', ''PC1'') \<in> fst ` set (connections ipc)
        \<and> (''PC1'', ''SW1'') \<in> fst ` set (connections ipc)"
    using bspec [OF all_linked l3, THEN mp, OF ends] by simp
  show ?thesis
    by (intro conjI ne out empty stopped linked)
qed

text \<open>
  The claim as stated fails: on the example network the unknown scenario \<open>day3\<close> raises
  with three nodes created and started and all six directional connections registered.
\<close>

theorem C2_actors_started_counterexample:
  "fst (run_body env0 triangle (devices triangle) ''day3'' sim0) =
     Inl (ValueError ''Unknown scenario: day3'')
   \<and> map (\<lambda>(k, node). (k, thread_alive node))
       (nodes (snd (run_body env0 triangle (devices triangle) ''day3'' sim0))) =
       [(''R1'', True), (''SW1'', True), (''PC1'', True)]
   \<and> map_option (\<lambda>ipc. map fst (connections ipc))
       (ipc_manager (snd (run_body env0 triangle (devices triangle) ''day3'' sim0))) =
       Some [(''R1'', ''SW1''), (''SW1'', ''R1''), (''R1'', ''PC1''), (''PC1'', ''R1''),
             (''SW1'', ''PC1''), (''PC1'', ''SW1'')]"
proof -
  have body: "run_body env0 triangle (devices triangle) ''day3'' sim0 =
      (Inl (ValueError ''Unknown scenario: day3''),
       initialize_simulation triangle (devices triangle) sim0)"
    unfolding run_body_def Let_def by simp
  show ?thesis
    unfolding body fst_conv snd_conv triangle_registry triangle_nodes
    by (simp add: thread_alive_node_start)
qed
section \<open>Orchestrator: the first scenario\<close>

lemma for_each_node_keys:
  "map fst (fst (for_each_node body ns st)) = map fst ns"
proof (induction ns arbitrary: st)
  case Nil
  then show ?case by simp
next
  case (Cons e ns)
  obtain k n where e: "e = (k, n)" by (cases e)
  obtain n' st' where b: "body n st = (n', st')" by (cases "body n st")
  obtain ns' st'' where r: "for_each_node body ns st' = (ns', st'')"
    by (cases "for_each_node body ns st'")
  have "map fst ns' = map fst ns"
    using Cons.IH [of st'] r by simp
  then show ?case by (simp add: e b r)
qed

lemma for_each_node_devices:
  assumes "\<And>n st. device (fst (body n st)) = device n"
  shows "map (\<lambda>e. device (snd e)) (fst (for_each_node body ns st)) =
         map (\<lambda>e. device (snd e)) ns"
proof (induction ns arbitrary: st)
  case Nil
  then show ?case by simp
next
  case (Cons e ns)
  obtain k n where e: "e = (k, n)" by (cases e)
  obtain n' st' where b: "body n st = (n', st')" by (cases "body n st")
  obtain ns' st'' where r: "for_each_node body ns st' = (ns', st'')"
    by (cases "for_each_node body ns st'")
  have "device n' = device n" using assms [of n st] b by simp
  moreover have "map (\<lambda>e. device (snd e)) ns' = map (\<lambda>e. device (snd e)) ns"
    using Cons.IH [of st'] r by simp
  ultimately show ?case by (simp add: e b r)
qed

lemma for_each_node_log:
  assumes "\<And>n st. proj (snd (body n st)) = proj st @ g (device n)"
  shows "proj (snd (for_each_node body ns st)) =
         proj st @ concat (map (\<lambda>e. g (device (snd e))) ns)"
proof (induction ns arbitrary: st)
  case Nil
  then show ?case by simp
next
  case (Cons e ns)
  obtain k n where e: "e = (k, n)" by (cases e)
  obtain n' st' where b: "body n st = (n', st')" by (cases "body n st")
  obtain ns' st'' where r: "for_each_node body ns st' = (ns', st'')"
    by (cases "for_each_node body ns st'")
  have "proj st' = proj st @ g (device n)" using assms [of n st] b by simp
  moreover have "proj st'' = proj st' @ concat (map (\<lambda>e. g (device (snd e))) ns)"
    using Cons.IH [of st'] r by simp
  ultimately show ?case by (simp add: e b r)
qed

lemma for_each_node_all:
  assumes "\<And>n st. P (fst (body n st))"
  shows "list_all (\<lambda>e. P (snd e)) (fst (for_each_node body ns st))"
proof (induction ns arbitrary: st)
  case Nil
  then show ?case by simp
next
  case (Cons e ns)
  obtain k n where e: "e = (k, n)" by (cases e)
  obtain n' st' where b: "body n st = (n', st')" by (cases "body n st")
  obtain ns' st'' where r: "for_each_node body ns st' = (ns', st'')"
    by (cases "for_each_node body ns st'")
  have "P n'" using assms [of n st] b by simp
  moreover have "list_all (\<lambda>e. P (snd e)) ns'"
    using Cons.IH [of st'] r by simp
  ultimately show ?case by (simp add: e b r)
qed

lemma concat_optional:
  "concat (map (\<lambda>e. if P (device (snd e)) then [c] else []) ns) =
     replicate (length (filter P (map (\<lambda>e. device (snd e)) ns))) c"
  by (induction ns) simp_all

lemma device_power_on [simp]: "device (power_on node) = device node"
proof -
  have "device (fold (\<lambda>interface n.
                  if iface_enabled interface
                  then n\<lparr>interface_states :=
                         AList.update (iface_name interface) True (interface_states n)\<rparr>
                  else n) ifs n0) = device n0" for ifs :: "Interface list" and n0 :: NetworkNode
    by (induction ifs arbitrary: n0) simp_all
  then show ?thesis by (simp add: power_on_def Let_def)
qed

lemma device_broadcast_message [simp]:
  "device (fst (broadcast_message msg node ipc)) = device node"
  by (simp add: broadcast_message_def bump_packets_sent_def)

lemma device_perform_arp_discovery [simp]:
  "device (fst (perform_arp_discovery node ipc)) = device node"
proof -
  have "device (fst (fold (\<lambda>interface (n, i).
            if truthy (ip_address interface) \<and>
               (case map_of (interface_states n) (iface_name interface) of
                  None \<Rightarrow> False | Some up \<Rightarrow> up)
            then
              (let arp_message =
                     [(''type'', PStr ''arp_request''),
                      (''source'', PStr (name (device n))),
                      (''source_ip'', opt_str (ip_address interface)),
                      (''target_ip'', PStr (get_gateway_ip interface)),
                      (''interface'', PStr (iface_name interface))]
               in case broadcast_message arp_message n i of
                    (n1, i1) \<Rightarrow>
                      (n1\<lparr>statistics := (statistics n1)
                            \<lparr>arp_requests_sent := arp_requests_sent (statistics n1) + 1\<rparr>\<rparr>, i1))
            else (n, i)) ifs p)) = device (fst p)"
    for ifs :: "Interface list" and p :: "NetworkNode \<times> IPCManager"
  proof (induction ifs arbitrary: p)
    case Nil
    then show ?case by simp
  next
    case (Cons a ifs)
    obtain n i where p: "p = (n, i)" by (cases p)
    show ?case
      unfolding fold_simps comp_def Cons.IH
      by (simp add: p Let_def broadcast_message_def bump_packets_sent_def)
  qed
  from this [of "interfaces (device node)" "(node, ipc)"] show ?thesis
    by (simp add: perform_arp_discovery_def)
qed

lemma device_send_ospf_hello [simp]:
  "device (fst (send_ospf_hello py_hash node ipc)) = device node"
proof -
  have "device (fst (fold (\<lambda>ospf_process (n, i).
                let hello_message =
                      [(''type'', PStr ''ospf_hello''),
                       (''source'', PStr (name (device n))),
                       (''process_id'', opt_str (process_id ospf_process)),
                       (''area'', PStr (case area ospf_process of
                                         None \<Rightarrow> ''0''
                                       | Some a \<Rightarrow> if a \<noteq> [] then a else ''0'')),
                       (''router_id'', PStr (get_router_id py_hash n))]
                in case broadcast_message hello_message n i of
                     (n1, i1) \<Rightarrow>
                       (n1\<lparr>statistics := (statistics n1)
                             \<lparr>hello_packets_sent := hello_packets_sent (statistics n1) + 1\<rparr>\<rparr>, i1))
              rps p)) = device (fst p)"
    for rps :: "RoutingProtocol list" and p :: "NetworkNode \<times> IPCManager"
  proof (induction rps arbitrary: p)
    case Nil
    then show ?case by simp
  next
    case (Cons a rps)
    obtain n i where p: "p = (n, i)" by (cases p)
    show ?case
      unfolding fold_simps comp_def Cons.IH
      by (simp add: p Let_def broadcast_message_def bump_packets_sent_def)
  qed
  from this [of "filter (\<lambda>rp. protocol rp = ''ospf'') (routing_protocols (device node))"
      "(node, ipc)"]
  show ?thesis
    by (simp add: send_ospf_hello_def Let_def)
qed

lemma device_update_routing_table [simp]:
  "device (update_routing_table node) = device node"
proof -
  have inner: "device (fold (\<lambda>network n'.
                          n'\<lparr>routing_table :=
                               AList.update network ''directly_connected'' (routing_table n')\<rparr>)
                       nets n0) = device n0"
    for nets :: "string list" and n0 :: NetworkNode
    by (induction nets arbitrary: n0) simp_all
  have outer: "device (fold (\<lambda>rp n.
                     fold (\<lambda>network n'.
                          n'\<lparr>routing_table :=
                               AList.update network ''directly_connected'' (routing_table n')\<rparr>)
                       (networks rp) n) rps n0) = device n0"
    for rps :: "RoutingProtocol list" and n0 :: NetworkNode
    by (induction rps arbitrary: n0) (simp_all add: inner)
  show ?thesis
    by (simp add: update_routing_table_def Let_def outer)
qed

lemma device_with_ipc:
  assumes "\<And>n i. device (fst (f n i)) = device n"
  shows "device (fst (with_ipc f node ipc)) = device node"
proof (cases ipc)
  case None
  then show ?thesis by simp
next
  case (Some i)
  then show ?thesis
    using assms [of node i] by (cases "f node i") simp
qed

lemma roster_log_event [simp]: "roster (log_event t m d s) = roster s"
  by (simp add: roster_def)

lemma keys_log_event [simp]: "map fst (nodes (log_event t m d s)) = map fst (nodes s)"
  by simp

lemma event_kinds_log_event [simp]: "event_kinds (log_event t m d s) = event_kinds s @ [t]"
  by (simp add: event_kinds_def mk_event_def)

lemma startup_pass_effect:
  "roster (startup_pass dtype st) = roster st
   \<and> map fst (nodes (startup_pass dtype st)) = map fst (nodes st)
   \<and> event_kinds (startup_pass dtype st) = event_kinds st @
        replicate (length (filter (\<lambda>d. device_type d = dtype) (roster st))) ''device_startup''"
proof -
  let ?body = "\<lambda>node evs.
                   if device_type (device node) = dtype
                   then (power_on node,
                         evs @ [mk_event ''device_startup''
                                  (''Device '' @ name (device node) @ '' starting up'')
                                  (Some (name (device node)))])
                   else (node, evs)"
  obtain ns evs where r: "for_each_node ?body (nodes st) (events st) = (ns, evs)"
    by (cases "for_each_node ?body (nodes st) (events st)")
  have dev: "map (\<lambda>e. device (snd e)) ns = map (\<lambda>e. device (snd e)) (nodes st)"
    using for_each_node_devices [of ?body "nodes st" "events st"] r by simp
  have keys: "map fst ns = map fst (nodes st)"
    using for_each_node_keys [of ?body "nodes st" "events st"] r by simp
  have "map ev_type (snd (for_each_node ?body (nodes st) (events st))) =
        map ev_type (events st) @
        concat (map (\<lambda>e. (\<lambda>d. if device_type d = dtype then [''device_startup''] else [])
                      (device (snd e))) (nodes st))"
    by (rule for_each_node_log) (simp add: mk_event_def)
  moreover have "concat (map (\<lambda>e. if device_type (device (snd e)) = dtype
                               then [''device_startup''] else []) (nodes st)) =
        replicate (length (filter (\<lambda>d. device_type d = dtype) (roster st))) ''device_startup''"
    unfolding roster_def by (rule concat_optional [of "\<lambda>d. device_type d = dtype"])
  ultimately have log: "map ev_type evs = map ev_type (events st) @
        replicate (length (filter (\<lambda>d. device_type d = dtype) (roster st))) ''device_startup''"
    by (simp only: r snd_conv)
  show ?thesis
    unfolding startup_pass_def r
    by (simp add: roster_def event_kinds_def dev keys log [unfolded roster_def])
qed

lemma simulate_device_startup_passes:
  "simulate_device_startup s =
     startup_pass ''firewall'' (startup_pass ''switch'' (startup_pass ''router'' s))"
  unfolding simulate_device_startup_def startup_order_def startup_pass_def by simp

lemma simulate_device_startup_effect:
  "roster (simulate_device_startup s) = roster s
   \<and> map fst (nodes (simulate_device_startup s)) = map fst (nodes s)
   \<and> event_kinds (simulate_device_startup s) = event_kinds s @
        replicate (length (filter (\<lambda>d. device_type d = ''router'') (roster s))
                   + length (filter (\<lambda>d. device_type d = ''switch'') (roster s))
                   + length (filter (\<lambda>d. device_type d = ''firewall'') (roster s)))
          ''device_startup''"
  unfolding simulate_device_startup_passes
  by (simp add: startup_pass_effect replicate_add)

lemma concat_singletons: "concat (map (\<lambda>e. [c]) ns) = replicate (length ns) c"
  by (induction ns) simp_all

lemma simulate_arp_discovery_effect:
  "roster (simulate_arp_discovery s) = roster s
   \<and> map fst (nodes (simulate_arp_discovery s)) = map fst (nodes s)
   \<and> event_kinds (simulate_arp_discovery s) = event_kinds s @
        replicate (length (nodes s)) ''arp_discovery''"
proof -
  let ?body = "\<lambda>node (evs, ipc).
                case with_ipc perform_arp_discovery node ipc of
                  (node', ipc') \<Rightarrow>
                    (node',
                     (evs @ [mk_event ''arp_discovery''
                               (''Device '' @ name (device node) @ '' performing ARP discovery'')
                               (Some (name (device node)))],
                      ipc'))"
  obtain ns evs ipc where
    r: "for_each_node ?body (nodes s) (events s, ipc_manager s) = (ns, (evs, ipc))"
    by (cases "for_each_node ?body (nodes s) (events s, ipc_manager s)") auto
  have bdev: "device (fst (?body n st)) = device n" for n st
  proof -
    obtain evs0 ipc0 where st: "st = (evs0, ipc0)" by (cases st)
    obtain n' ipc' where w: "with_ipc perform_arp_discovery n ipc0 = (n', ipc')"
      by (cases "with_ipc perform_arp_discovery n ipc0")
    have "device n' = device n"
      using device_with_ipc [of perform_arp_discovery n ipc0] w by simp
    then show ?thesis by (simp add: st w)
  qed
  have blog: "map ev_type (fst (snd (?body n st))) = map ev_type (fst st) @ [''arp_discovery'']"
    for n st
  proof -
    obtain evs0 ipc0 where st: "st = (evs0, ipc0)" by (cases st)
    obtain n' ipc' where w: "with_ipc perform_arp_discovery n ipc0 = (n', ipc')"
      by (cases "with_ipc perform_arp_discovery n ipc0")
    show ?thesis by (simp add: st w mk_event_def)
  qed
  have dev: "map (\<lambda>e. device (snd e)) ns = map (\<lambda>e. device (snd e)) (nodes s)"
    using for_each_node_devices [of ?body "nodes s" "(events s, ipc_manager s)", OF bdev] r
    by simp
  have keys: "map fst ns = map fst (nodes s)"
    using for_each_node_keys [of ?body "nodes s" "(events s, ipc_manager s)"] r by simp
  have "(\<lambda>st. map ev_type (fst st)) (snd (for_each_node ?body (nodes s) (events s, ipc_manager s))) =
        (\<lambda>st. map ev_type (fst st)) (events s, ipc_manager s) @
        concat (map (\<lambda>e. (\<lambda>d. [''arp_discovery'']) (device (snd e))) (nodes s))"
    by (rule for_each_node_log) (rule blog)
  then have log: "map ev_type evs = map ev_type (events s) @
        replicate (length (nodes s)) ''arp_discovery''"
    by (simp only: r snd_conv fst_conv concat_singletons)
  show ?thesis
    unfolding simulate_arp_discovery_def r
    by (simp add: roster_def event_kinds_def dev keys log)
qed

lemma simulate_network_stabilization_effect:
  "roster (simulate_network_stabilization s) = roster s
   \<and> map fst (nodes (simulate_network_stabilization s)) = map fst (nodes s)
   \<and> event_kinds (simulate_network_stabilization s) = event_kinds s @ [''network_stable'']
   \<and> list_all (\<lambda>e. operational (snd e)) (nodes (simulate_network_stabilization s))"
  by (simp add: simulate_network_stabilization_def Let_def roster_def event_kinds_def
      set_operational_state_def comp_def case_prod_beta list_all_iff mk_event_def log_event_def)

lemma simulate_routing_convergence_effect:
  "roster (simulate_routing_convergence env s) = roster s
   \<and> map fst (nodes (simulate_routing_convergence env s)) = map fst (nodes s)
   \<and> event_kinds (simulate_routing_convergence env s) = event_kinds s @
        replicate (length (filter speaks_ospf (roster s))) ''ospf_hello'' @
        replicate (length (filter (\<lambda>d. device_type d = ''router'') (roster s)))
          ''routing_table_update''"
proof -
  let ?hello = "\<lambda>node (evs, ipc).
                if device_type (device node) = ''router'' \<and>
                   list_ex (\<lambda>rp. protocol rp = ''ospf'') (routing_protocols (device node))
                then
                  (case with_ipc (send_ospf_hello (env_hash env)) node ipc of
                     (node', ipc') \<Rightarrow>
                       (node',
                        (evs @ [mk_event ''ospf_hello''
                                  (''Router '' @ name (device node) @ '' sending OSPF hello packets'')
                                  (Some (name (device node)))],
                         ipc')))
                else (node, (evs, ipc))"
  let ?update = "\<lambda>node evs.
                     if device_type (device node) = ''router''
                     then (update_routing_table node,
                           evs @ [mk_event ''routing_table_update''
                                    (''Router '' @ name (device node) @ '' updating routing table'')
                                    (Some (name (device node)))])
                     else (node, evs)"
  obtain ns1 evs1 ipc1 where
    r1: "for_each_node ?hello (nodes s) (events s, ipc_manager s) = (ns1, (evs1, ipc1))"
    by (cases "for_each_node ?hello (nodes s) (events s, ipc_manager s)") auto
  obtain ns2 evs2 where r2: "for_each_node ?update ns1 evs1 = (ns2, evs2)"
    by (cases "for_each_node ?update ns1 evs1")
  have hdev: "device (fst (?hello n st)) = device n" for n st
  proof -
    obtain evs0 ipc0 where st: "st = (evs0, ipc0)" by (cases st)
    obtain n' ipc' where w: "with_ipc (send_ospf_hello (env_hash env)) n ipc0 = (n', ipc')"
      by (cases "with_ipc (send_ospf_hello (env_hash env)) n ipc0")
    have "device n' = device n"
      using device_with_ipc [of "send_ospf_hello (env_hash env)" n ipc0] w by simp
    then show ?thesis by (simp add: st w)
  qed
  have hlog: "map ev_type (fst (snd (?hello n st))) =
              map ev_type (fst st) @ (if speaks_ospf (device n) then [''ospf_hello''] else [])"
    for n st
  proof -
    obtain evs0 ipc0 where st: "st = (evs0, ipc0)" by (cases st)
    obtain n' ipc' where w: "with_ipc (send_ospf_hello (env_hash env)) n ipc0 = (n', ipc')"
      by (cases "with_ipc (send_ospf_hello (env_hash env)) n ipc0")
    show ?thesis by (simp add: st w mk_event_def speaks_ospf_def)
  qed
  have dev1: "map (\<lambda>e. device (snd e)) ns1 = map (\<lambda>e. device (snd e)) (nodes s)"
    using for_each_node_devices [of ?hello "nodes s" "(events s, ipc_manager s)", OF hdev] r1
    by simp
  have keys1: "map fst ns1 = map fst (nodes s)"
    using for_each_node_keys [of ?hello "nodes s" "(events s, ipc_manager s)"] r1 by simp
  have "(\<lambda>st. map ev_type (fst st)) (snd (for_each_node ?hello (nodes s) (events s, ipc_manager s))) =
        (\<lambda>st. map ev_type (fst st)) (events s, ipc_manager s) @
        concat (map (\<lambda>e. (\<lambda>d. if speaks_ospf d then [''ospf_hello''] else []) (device (snd e)))
                  (nodes s))"
    by (rule for_each_node_log) (rule hlog)
  moreover have "concat (map (\<lambda>e. if speaks_ospf (device (snd e)) then [''ospf_hello''] else [])
                  (nodes s)) =
        replicate (length (filter speaks_ospf (roster s))) ''ospf_hello''"
    unfolding roster_def by (rule concat_optional)
  ultimately have log1: "map ev_type evs1 = map ev_type (events s) @
        replicate (length (filter speaks_ospf (roster s))) ''ospf_hello''"
    by (simp only: r1 snd_conv fst_conv)
  have dev2: "map (\<lambda>e. device (snd e)) ns2 = map (\<lambda>e. device (snd e)) ns1"
    using for_each_node_devices [of ?update ns1 evs1] r2 by simp
  have keys2: "map fst ns2 = map fst ns1"
    using for_each_node_keys [of ?update ns1 evs1] r2 by simp
  have "map ev_type (snd (for_each_node ?update ns1 evs1)) =
        map ev_type evs1 @
        concat (map (\<lambda>e. (\<lambda>d. if device_type d = ''router'' then [''routing_table_update''] else [])
                      (device (snd e))) ns1)"
    by (rule for_each_node_log) (simp add: mk_event_def)
  moreover have "concat (map (\<lambda>e. if device_type (device (snd e)) = ''router''
                               then [''routing_table_update''] else []) ns1) =
        replicate (length (filter (\<lambda>d. device_type d = ''router'')
                     (map (\<lambda>e. device (snd e)) ns1))) ''routing_table_update''"
    by (rule concat_optional [of "\<lambda>d. device_type d = ''router''"])
  ultimately have log2: "map ev_type evs2 = map ev_type evs1 @
        replicate (length (filter (\<lambda>d. device_type d = ''router'') (roster s)))
          ''routing_table_update''"
    by (simp only: r2 snd_conv dev1 roster_def)
  show ?thesis
    unfolding simulate_routing_convergence_def r1 prod.case r2
    by (simp add: roster_def event_kinds_def dev1 dev2 keys1 keys2 log1 [unfolded roster_def]
        log2 [unfolded roster_def])
qed

lemma run_day1_scenario_effect:
  "roster (run_day1_scenario env s) = roster s
   \<and> map fst (nodes (run_day1_scenario env s)) = map fst (nodes s)
   \<and> list_all (\<lambda>e. operational (snd e)) (nodes (run_day1_scenario env s))
   \<and> event_kinds (run_day1_scenario env s) = event_kinds s @
        [''phase_start''] @
        replicate (length (filter (\<lambda>d. device_type d = ''router'') (roster s))
                   + length (filter (\<lambda>d. device_type d = ''switch'') (roster s))
                   + length (filter (\<lambda>d. device_type d = ''firewall'') (roster s)))
          ''device_startup'' @
        [''phase_start''] @
        replicate (length (roster s)) ''arp_discovery'' @
        [''phase_start''] @
        replicate (length (filter speaks_ospf (roster s))) ''ospf_hello'' @
        replicate (length (filter (\<lambda>d. device_type d = ''router'') (roster s)))
          ''routing_table_update'' @
        [''phase_start'', ''network_stable'']"
proof -
  have len: "length (nodes st) = length (roster st)" for st
    by (simp add: roster_def)
  show ?thesis
    unfolding run_day1_scenario_def Let_def
    by (simp add: simulate_network_stabilization_effect simulate_routing_convergence_effect
        simulate_arp_discovery_effect simulate_device_startup_effect len)
qed

lemma device_node_start_init [simp]: "device (node_start (NetworkNode_init d)) = d"
  by (simp add: node_start_def NetworkNode_init_def)

lemma initialize_simulation_effect:
  assumes "distinct (map name devs)" "nodes s = []"
  shows "roster (initialize_simulation topology devs s) = devs
    \<and> map fst (nodes (initialize_simulation topology devs s)) = map name devs
    \<and> event_kinds (initialize_simulation topology devs s) =
        event_kinds s @ [''simulation_started'']"
  by (simp add: roster_def event_kinds_def initialize_simulation_node_list [OF assms]
      initialize_simulation_events comp_def mk_event_def)

lemma collect_node_states_effect:
  "map fst (collect_node_states s) = map fst (nodes s)
   \<and> list_all (\<lambda>e. ns_operational (snd e)) (collect_node_states s) =
       list_all (\<lambda>e. operational (snd e)) (nodes s)"
  by (simp add: collect_node_states_def is_operational_def comp_def case_prod_beta list_all_iff)

lemma day1_result:
  assumes "distinct (map name devs)" "nodes s = []"
  shows "\<exists>res. fst (run_simulation env topology devs ''day1'' s) = Inr res
    \<and> map ev_type (res_events res) = event_kinds s @
        [''simulation_started'', ''phase_start''] @
        replicate (length (filter (\<lambda>d. device_type d = ''router'') devs)
                   + length (filter (\<lambda>d. device_type d = ''switch'') devs)
                   + length (filter (\<lambda>d. device_type d = ''firewall'') devs))
          ''device_startup'' @
        [''phase_start''] @
        replicate (length devs) ''arp_discovery'' @
        [''phase_start''] @
        replicate (length (filter speaks_ospf devs)) ''ospf_hello'' @
        replicate (length (filter (\<lambda>d. device_type d = ''router'') devs))
          ''routing_table_update'' @
        [''phase_start'', ''network_stable'']
    \<and> map fst (node_states res) = map name devs
    \<and> list_all (\<lambda>e. ns_operational (snd e)) (node_states res)"
proof -
  define s1 where "s1 = initialize_simulation topology devs s"
  define s2 where "s2 = run_day1_scenario env s1"
  note i = initialize_simulation_effect [OF assms, of topology, folded s1_def]
  note d = run_day1_scenario_effect [of env s1, folded s2_def]
  have run: "fst (run_simulation env topology devs ''day1'' s) = Inr (collect_result ''day1'' s2)"
    by (simp add: run_simulation_def run_body_def Let_def s1_def s2_def split: prod.splits)
  have ev: "map ev_type (res_events (collect_result ''day1'' s2)) = event_kinds s2"
    by (simp add: collect_result_def event_kinds_def)
  have ns: "node_states (collect_result ''day1'' s2) = collect_node_states s2"
    by (simp add: collect_result_def)
  have "map ev_type (res_events (collect_result ''day1'' s2)) = event_kinds s @
        [''simulation_started'', ''phase_start''] @
        replicate (length (filter (\<lambda>d. device_type d = ''router'') devs)
                   + length (filter (\<lambda>d. device_type d = ''switch'') devs)
                   + length (filter (\<lambda>d. device_type d = ''firewall'') devs))
          ''device_startup'' @
        [''phase_start''] @
        replicate (length devs) ''arp_discovery'' @
        [''phase_start''] @
        replicate (length (filter speaks_ospf devs)) ''ospf_hello'' @
        replicate (length (filter (\<lambda>d. device_type d = ''router'') devs))
          ''routing_table_update'' @
        [''phase_start'', ''network_stable'']"
    unfolding ev using d i by simp
  moreover have "map fst (node_states (collect_result ''day1'' s2)) = map name devs"
    unfolding ns using d i by (simp add: collect_node_states_effect)
  moreover have "list_all (\<lambda>e. ns_operational (snd e)) (node_states (collect_result ''day1'' s2))"
    unfolding ns using d by (simp add: collect_node_states_effect)
  ultimately show ?thesis
    using run by blast
qed

lemma filter_length_mono:
  "(\<And>x. P x \<Longrightarrow> Q x) \<Longrightarrow> length (filter P xs) \<le> length (filter Q xs)"
  by (induction xs) auto

lemma three_kinds_partition:
  assumes "a \<noteq> b" "a \<noteq> c" "b \<noteq> c"
  shows "length (filter (\<lambda>x. f x = a) xs) + length (filter (\<lambda>x. f x = b) xs)
       + length (filter (\<lambda>x. f x = c) xs)
       + length (filter (\<lambda>x. f x \<noteq> a \<and> f x \<noteq> b \<and> f x \<noteq> c) xs) = length xs"
  using assms by (induction xs) auto

lemma no_firewall:
  assumes "length devs = 3"
    "length (filter (\<lambda>d. device_type d = ''router'') devs) = 1"
    "length (filter (\<lambda>d. device_type d = ''switch'') devs) = 1"
    "length (filter (\<lambda>d. device_type d = ''pc'') devs) = 1"
  shows "length (filter (\<lambda>d. device_type d = ''firewall'') devs) = 0"
proof -
  have "length (filter (\<lambda>d. device_type d = ''router'') devs)
       + length (filter (\<lambda>d. device_type d = ''switch'') devs)
       + length (filter (\<lambda>d. device_type d = ''pc'') devs)
       + length (filter (\<lambda>d. device_type d \<noteq> ''router'' \<and> device_type d \<noteq> ''switch''
                             \<and> device_type d \<noteq> ''pc'') devs) = length devs"
    by (rule three_kinds_partition) simp_all
  then have rest: "length (filter (\<lambda>d. device_type d \<noteq> ''router'' \<and> device_type d \<noteq> ''switch''
                             \<and> device_type d \<noteq> ''pc'') devs) = 0"
    using assms by linarith
  have "length (filter (\<lambda>d. device_type d = ''firewall'') devs) \<le>
        length (filter (\<lambda>d. device_type d \<noteq> ''router'' \<and> device_type d \<noteq> ''switch''
                             \<and> device_type d \<noteq> ''pc'') devs)"
    by (rule filter_length_mono) simp
  then show ?thesis using rest by linarith
qed

section \<open>Orchestrator: claims about the first scenario\<close>

text \<open>
  C9. Scenario \<open>day1\<close>, run on a simulator whose node table and event log are empty,
  over three devices with distinct names, one router, one switch and one pc, and any
  topology, returns a result. The event log of the result is, in order:
  \<open>simulation_started\<close>, \<open>phase_start\<close>, two \<open>device_startup\<close> (the pc is not in the
  startup order), \<open>phase_start\<close>, three \<open>arp_discovery\<close>, \<open>phase_start\<close>, one
  \<open>ospf_hello\<close> if the router lists the protocol, \<open>routing_table_update\<close>,
  \<open>phase_start\<close>, \<open>network_stable\<close>. So it holds exactly four \<open>phase_start\<close> events,
  with a \<open>device_startup\<close> between the first and the second and an \<open>arp_discovery\<close>
  between the second and the third, and the result reports each of the three devices
  as operational.
\<close>

theorem C9_day1_three_devices:
  assumes "distinct (map name devs)" "nodes s = []" "events s = []"
    and "length devs = 3"
    and "length (filter (\<lambda>d. device_type d = ''router'') devs) = 1"
    and "length (filter (\<lambda>d. device_type d = ''switch'') devs) = 1"
    and "length (filter (\<lambda>d. device_type d = ''pc'') devs) = 1"
  shows "\<exists>res. fst (run_simulation env topology devs ''day1'' s) = Inr res
    \<and> map ev_type (res_events res) =
        [''simulation_started'', ''phase_start'', ''device_startup'', ''device_startup'',
         ''phase_start'', ''arp_discovery'', ''arp_discovery'', ''arp_discovery'',
         ''phase_start''] @
        replicate (length (filter speaks_ospf devs)) ''ospf_hello'' @
        [''routing_table_update'', ''phase_start'', ''network_stable'']
    \<and> subseq [''phase_start'', ''device_startup'', ''phase_start'', ''arp_discovery'',
               ''phase_start'', ''phase_start''] (map ev_type (res_events res))
    \<and> length (filter (\<lambda>e. ev_type e = ''phase_start'') (res_events res)) = 4
    \<and> map fst (node_states res) = map name devs
    \<and> length (node_states res) = 3
    \<and> list_all (\<lambda>e. ns_operational (snd e)) (node_states res)"
proof -
  from day1_result [OF assms(1,2), of env topology] obtain res where
    run: "fst (run_simulation env topology devs ''day1'' s) = Inr res"
    and kinds: "map ev_type (res_events res) = event_kinds s @
        [''simulation_started'', ''phase_start''] @
        replicate (length (filter (\<lambda>d. device_type d = ''router'') devs)
                   + length (filter (\<lambda>d. device_type d = ''switch'') devs)
                   + length (filter (\<lambda>d. device_type d = ''firewall'') devs))
          ''device_startup'' @
        [''phase_start''] @
        replicate (length devs) ''arp_discovery'' @
        [''phase_start''] @
        replicate (length (filter speaks_ospf devs)) ''ospf_hello'' @
        replicate (length (filter (\<lambda>d. device_type d = ''router'') devs))
          ''routing_table_update'' @
        [''phase_start'', ''network_stable'']"
    and keys: "map fst (node_states res) = map name devs"
    and up: "list_all (\<lambda>e. ns_operational (snd e)) (node_states res)"
    by (elim exE conjE) (rule that)
  define h where "h = length (filter speaks_ospf devs)"
  have fw: "length (filter (\<lambda>d. device_type d = ''firewall'') devs) = 0"
    by (rule no_firewall [OF assms(4-7)])
  have exact: "map ev_type (res_events res) =
        [''simulation_started'', ''phase_start'', ''device_startup'', ''device_startup'',
         ''phase_start'', ''arp_discovery'', ''arp_discovery'', ''arp_discovery'',
         ''phase_start''] @
        replicate h ''ospf_hello'' @
        [''routing_table_update'', ''phase_start'', ''network_stable'']"
  proof -
    have none: "event_kinds s = []"
      by (simp add: event_kinds_def assms(3))
    show ?thesis
      using kinds by (simp add: assms(4,5,6) fw none h_def numeral_3_eq_3)
  qed
  have front: "subseq [''phase_start'', ''device_startup'', ''phase_start'', ''arp_discovery'',
                       ''phase_start'']
        [''simulation_started'', ''phase_start'', ''device_startup'', ''device_startup'',
         ''phase_start'', ''arp_discovery'', ''arp_discovery'', ''arp_discovery'',
         ''phase_start'']"
    by simp
  have rear: "subseq [''phase_start'']
        (replicate h ''ospf_hello'' @ [''routing_table_update'', ''phase_start'', ''network_stable''])"
    by (rule list_emb_append2) simp
  have sub: "subseq [''phase_start'', ''device_startup'', ''phase_start'', ''arp_discovery'',
               ''phase_start'', ''phase_start''] (map ev_type (res_events res))"
    unfolding exact
    using list_emb_append_mono [OF front rear] by simp
  have "length (filter (\<lambda>e. ev_type e = ''phase_start'') (res_events res)) =
        length (filter (\<lambda>t. t = ''phase_start'') (map ev_type (res_events res)))"
    by (simp add: filter_map comp_def)
  also have "\<dots> = 4"
    unfolding exact by simp
  finally have four: "length (filter (\<lambda>e. ev_type e = ''phase_start'') (res_events res)) = 4" .
  have "length (map fst (node_states res)) = length (map name devs)"
    by (simp only: keys)
  then have three: "length (node_states res) = 3"
    by (simp only: length_map assms(4))
  note exact' = exact [unfolded h_def]
  show ?thesis
    by (rule exI [of _ res]) (intro conjI run exact' sub four keys three up)
qed

theorem C9_day1_three_devices_witness:
  "distinct (map name (devices triangle)) \<and> nodes sim0 = [] \<and> events sim0 = []
   \<and> length (devices triangle) = 3
   \<and> (\<exists>res. fst (run_simulation env0 triangle (devices triangle) ''day1'' sim0) = Inr res
        \<and> map ev_type (res_events res) =
            [''simulation_started'', ''phase_start'', ''device_startup'', ''device_startup'',
             ''phase_start'', ''arp_discovery'', ''arp_discovery'', ''arp_discovery'',
             ''phase_start'', ''ospf_hello'', ''routing_table_update'', ''phase_start'',
             ''network_stable'']
        \<and> map fst (node_states res) = [''R1'', ''SW1'', ''PC1'']
        \<and> list_all (\<lambda>e. ns_operational (snd e)) (node_states res))"
proof -
  have pre: "distinct (map name (devices triangle))" "nodes sim0 = []" "events sim0 = []"
    "length (devices triangle) = 3"
    "length (filter (\<lambda>d. device_type d = ''router'') (devices triangle)) = 1"
    "length (filter (\<lambda>d. device_type d = ''switch'') (devices triangle)) = 1"
    "length (filter (\<lambda>d. device_type d = ''pc'') (devices triangle)) = 1"
    by simp_all
  have hello: "length (filter speaks_ospf (devices triangle)) = 1"
    by (simp add: speaks_ospf_def router_R1_def)
  from C9_day1_three_devices [OF pre, of env0 triangle] obtain res where
    r: "fst (run_simulation env0 triangle (devices triangle) ''day1'' sim0) = Inr res"
    and k: "map ev_type (res_events res) =
        [''simulation_started'', ''phase_start'', ''device_startup'', ''device_startup'',
         ''phase_start'', ''arp_discovery'', ''arp_discovery'', ''arp_discovery'',
         ''phase_start''] @
        replicate (length (filter speaks_ospf (devices triangle))) ''ospf_hello'' @
        [''routing_table_update'', ''phase_start'', ''network_stable'']"
    and n: "map fst (node_states res) = map name (devices triangle)"
    and u: "list_all (\<lambda>e. ns_operational (snd e)) (node_states res)"
    by (elim exE conjE) (rule that)
  have k': "map ev_type (res_events res) =
            [''simulation_started'', ''phase_start'', ''device_startup'', ''device_startup'',
             ''phase_start'', ''arp_discovery'', ''arp_discovery'', ''arp_discovery'',
             ''phase_start'', ''ospf_hello'', ''routing_table_update'', ''phase_start'',
             ''network_stable'']"
    unfolding k hello by simp
  have n': "map fst (node_states res) = [''R1'', ''SW1'', ''PC1'']"
    unfolding n by simp
  have "\<exists>res. fst (run_simulation env0 triangle (devices triangle) ''day1'' sim0) = Inr res
        \<and> map ev_type (res_events res) =
            [''simulation_started'', ''phase_start'', ''device_startup'', ''device_startup'',
             ''phase_start'', ''arp_discovery'', ''arp_discovery'', ''arp_discovery'',
             ''phase_start'', ''ospf_hello'', ''routing_table_update'', ''phase_start'',
             ''network_stable'']
        \<and> map fst (node_states res) = [''R1'', ''SW1'', ''PC1'']
        \<and> list_all (\<lambda>e. ns_operational (snd e)) (node_states res)"
    by (rule exI [of _ res]) (intro conjI r k' n' u)
  then show ?thesis
    by (intro conjI pre(1-4))
qed
end
